theory Spec2Isabelle
  imports Main "HOL-Library.Word"
begin

section \<open>The union value \<open>bvl::value_t\<close> of \<open>badval.hpp\<close>\<close>

subsection \<open>Data\<close>

text \<open>
  Addresses are natural numbers and \<open>nullptr\<close> is address 0. A \<open>freeFuncPtr_t\<close> is the
  address of a function. A \<open>double\<close> is its 64-bit pattern: the class only stores and
  returns doubles, so equality below is equality of the stored bits, and \<open>0.0\<close> is the
  all-zero pattern.
\<close>

type_synonym addr = nat
type_synonym freeFuncPtr_t = nat
type_synonym double = "64 word"

definition nullptr :: nat where
  "nullptr = 0"

text \<open>
  \<open>enum type_t { number = 0, string, pointer }\<close>. The field \<open>type\<close> is an enum object and
  so can hold an integer that is none of the three enumerators: the \<open>default:\<close> branches
  of the source exist for that case. The tag is therefore the enum's integer value.
\<close>

type_synonym type_t = nat

definition number :: type_t where
  "number = 0"

definition string :: type_t where
  "string = 1"

definition pointer :: type_t where
  "pointer = 2"

text \<open>
  The anonymous union \<open>value\<close>: exactly one member is active. \<open>Num\<close> is \<open>value.num\<close>,
  \<open>Str\<close> is \<open>value.str\<close> (a \<open>std::string*\<close>), \<open>Ptr p f\<close> is the anonymous struct with
  \<open>value.ptr = p\<close> and \<open>value.free = f\<close>. Reading a member that is not the active one is
  undefined behaviour in C++ and is an \<open>Undefined\<close> result below.
\<close>

datatype union_t = Num double | Str addr | Ptr addr freeFuncPtr_t

record value_t =
  type :: type_t
  "value" :: union_t

text \<open>
  What the class does outside its own fields: it frees a \<open>std::string\<close> or it calls the
  stored free function on the stored pointer. The body of the free function is the
  caller's code; the model records the call.
\<close>

datatype event = Delete addr | Call freeFuncPtr_t addr

text \<open>
  The store: the live \<open>value_t\<close> objects by address (\<open>this != &rhs\<close> compares these
  addresses), the live heap \<open>std::string\<close> objects by address, and the release actions
  performed so far, oldest first.
\<close>

record world =
  objs :: "addr \<rightharpoonup> value_t"
  strs :: "addr \<rightharpoonup> string"
  trace :: "event list"

datatype exn = runtime_error string | bad_alloc | logic_error string

text \<open>The result of a \<open>const\<close> accessor: a value, an exception, or undefined behaviour.\<close>

datatype 'a res = Ret 'a | Raise exn | UB

text \<open>
  The result of a constructor, an assignment, \<open>cleanup\<close> or the destructor: the store
  after a normal return, an exception with the store it leaves behind, a failed
  \<open>assert\<close> (the model is the build with assertions enabled), or undefined behaviour.
\<close>

datatype outcome = Done world | Throws exn world | Aborted | Undefined

subsection \<open>Accessors\<close>

text \<open>
  \<open>*p\<close> for a \<open>std::string*\<close>: the string at \<open>p\<close>, if \<open>p\<close> is not null and a string
  lives there. The accessors are \<open>const\<close> and change nothing; \<open>AsString\<close> reads the heap
  of the store it is called in.
\<close>

definition deref :: "world \<Rightarrow> addr \<Rightarrow> string option" where
  "deref w p = (if p = nullptr then None else strs w p)"

definition AsNumber :: "value_t \<Rightarrow> double res" where
  "AsNumber this =
     (if type this = number
      then (case value this of Num n \<Rightarrow> Ret n | _ \<Rightarrow> UB)
      else Raise (runtime_error ''Value is not a number''))"

definition AsString :: "world \<Rightarrow> value_t \<Rightarrow> string res" where
  "AsString w this =
     (if type this = string
      then (case value this of
              Str p \<Rightarrow> (case deref w p of Some s \<Rightarrow> Ret s | None \<Rightarrow> UB)
            | _ \<Rightarrow> UB)
      else Raise (runtime_error ''Value is not a string''))"

definition AsPointer :: "value_t \<Rightarrow> addr res" where
  "AsPointer this =
     (if type this = pointer
      then (case value this of Ptr p f \<Rightarrow> Ret p | _ \<Rightarrow> UB)
      else Raise (runtime_error ''Value is not a pointer''))"

definition Type :: "value_t \<Rightarrow> type_t" where
  "Type this = type this"

text \<open>The three explicit specialisations of \<open>template<type_t> As()\<close>.\<close>

definition As_number :: "value_t \<Rightarrow> double res" where
  "As_number this = AsNumber this"

definition As_string :: "world \<Rightarrow> value_t \<Rightarrow> string res" where
  "As_string w this = AsString w this"

definition As_pointer :: "value_t \<Rightarrow> addr res" where
  "As_pointer this = AsPointer this"

subsection \<open>Constructors\<close>

text \<open>
  A constructor builds the object at the address \<open>this\<close> that the caller provides. Where
  the source evaluates \<open>new(std::nothrow) std::string(...)\<close>, the argument \<open>a\<close> is what
  that expression returns: \<open>nullptr\<close> when no storage could be obtained, else the address
  of the new string. An exception leaves no object at \<open>this\<close>.
\<close>

text \<open>\<open>value_t()\<close>, \<open>value_t(double)\<close>, \<open>value_t(str_t&&...)\<close> with \<open>arg\<close> the string
  its arguments construct, and \<open>value_t(void*, freeFuncPtr_t)\<close>.\<close>

definition value_t_default :: "addr \<Rightarrow> world \<Rightarrow> outcome" where
  "value_t_default this w =
     Done (w\<lparr>objs := (objs w)(this \<mapsto> \<lparr>type = number, value = Num 0\<rparr>)\<rparr>)"

definition value_t_number :: "addr \<Rightarrow> double \<Rightarrow> world \<Rightarrow> outcome" where
  "value_t_number this num w =
     Done (w\<lparr>objs := (objs w)(this \<mapsto> \<lparr>type = number, value = Num num\<rparr>)\<rparr>)"

definition value_t_string :: "addr \<Rightarrow> addr \<Rightarrow> string \<Rightarrow> world \<Rightarrow> outcome" where
  "value_t_string this a arg w =
     (if a = nullptr then Throws bad_alloc w
      else Done (w\<lparr>strs := (strs w)(a \<mapsto> arg),
                   objs := (objs w)(this \<mapsto> \<lparr>type = string, value = Str a\<rparr>)\<rparr>))"

definition value_t_pointer :: "addr \<Rightarrow> addr \<Rightarrow> freeFuncPtr_t \<Rightarrow> world \<Rightarrow> outcome" where
  "value_t_pointer this ptr free w =
     Done (w\<lparr>objs := (objs w)(this \<mapsto> \<lparr>type = pointer, value = Ptr ptr free\<rparr>)\<rparr>)"

text \<open>
  \<open>value_t(const value_t& src)\<close>: the switch on the tag copied from \<open>src\<close>. The string
  case reads \<open>*src.value.str\<close>, which is undefined for a null pointer.
\<close>

definition value_t_copy :: "addr \<Rightarrow> addr \<Rightarrow> addr \<Rightarrow> world \<Rightarrow> outcome" where
  "value_t_copy this src a w =
     (case objs w src of
        None \<Rightarrow> Undefined
      | Some s \<Rightarrow>
          if type s = number then
            (case value s of
               Num n \<Rightarrow> Done (w\<lparr>objs := (objs w)(this \<mapsto> \<lparr>type = type s, value = Num n\<rparr>)\<rparr>)
             | _ \<Rightarrow> Undefined)
          else if type s = string then
            (case value s of
               Str p \<Rightarrow>
                 (case deref w p of
                    None \<Rightarrow> Undefined
                  | Some txt \<Rightarrow>
                      if a = nullptr then Throws bad_alloc w
                      else Done (w\<lparr>strs := (strs w)(a \<mapsto> txt),
                                   objs := (objs w)(this \<mapsto> \<lparr>type = type s, value = Str a\<rparr>)\<rparr>))
             | _ \<Rightarrow> Undefined)
          else if type s = pointer then
            Throws (runtime_error ''Do not know how to copy pointer'') w
          else Throws (logic_error ''Impossible type'') w)"

text \<open>
  \<open>value_t(value_t&& src)\<close>: the payload goes to \<open>*this\<close> and the pointers of \<open>src\<close> are
  set to null; the tag of \<open>src\<close> stays.
\<close>

definition value_t_move :: "addr \<Rightarrow> addr \<Rightarrow> world \<Rightarrow> outcome" where
  "value_t_move this src w =
     (case objs w src of
        None \<Rightarrow> Undefined
      | Some s \<Rightarrow>
          if type s = number then
            (case value s of
               Num n \<Rightarrow> Done (w\<lparr>objs := (objs w)(this \<mapsto> \<lparr>type = type s, value = Num n\<rparr>)\<rparr>)
             | _ \<Rightarrow> Undefined)
          else if type s = string then
            (case value s of
               Str p \<Rightarrow>
                 Done (w\<lparr>objs := (objs w)(this \<mapsto> \<lparr>type = type s, value = Str p\<rparr>,
                                            src \<mapsto> s\<lparr>value := Str nullptr\<rparr>)\<rparr>)
             | _ \<Rightarrow> Undefined)
          else if type s = pointer then
            (case value s of
               Ptr p f \<Rightarrow>
                 Done (w\<lparr>objs := (objs w)(this \<mapsto> \<lparr>type = type s, value = Ptr p f\<rparr>,
                                            src \<mapsto> s\<lparr>value := Ptr nullptr nullptr\<rparr>)\<rparr>)
             | _ \<Rightarrow> Undefined)
          else Aborted)"

subsection \<open>Cleanup, destructor, assignment\<close>

text \<open>
  \<open>cleanup()\<close>. \<open>delete\<close> of a null pointer does nothing; \<open>delete\<close> of a live string frees it;
  \<open>delete\<close> of anything else is undefined. After the switch the value is number 0.0.
\<close>

definition cleanup :: "addr \<Rightarrow> world \<Rightarrow> outcome" where
  "cleanup this w =
     (case objs w this of
        None \<Rightarrow> Undefined
      | Some v \<Rightarrow>
          let reset = (\<lambda>w'. Done (w'\<lparr>objs := (objs w')(this \<mapsto> \<lparr>type = number, value = Num 0\<rparr>)\<rparr>))
          in
          if type v = number then reset w
          else if type v = string then
            (case value v of
               Str p \<Rightarrow>
                 if p = nullptr then reset w
                 else (case strs w p of
                         None \<Rightarrow> Undefined
                       | Some _ \<Rightarrow> reset (w\<lparr>strs := (strs w)(p := None),
                                             trace := trace w @ [Delete p]\<rparr>))
             | _ \<Rightarrow> Undefined)
          else if type v = pointer then
            (case value v of
               Ptr p f \<Rightarrow>
                 if f \<noteq> nullptr then reset (w\<lparr>trace := trace w @ [Call f p]\<rparr>)
                 else reset w
             | _ \<Rightarrow> Undefined)
          else Aborted)"

text \<open>\<open>~value_t()\<close>: \<open>cleanup\<close>, after which the object is gone.\<close>

definition destroy :: "addr \<Rightarrow> world \<Rightarrow> outcome" where
  "destroy this w =
     (case cleanup this w of
        Done w' \<Rightarrow> Done (w'\<lparr>objs := (objs w')(this := None)\<rparr>)
      | other \<Rightarrow> other)"

text \<open>
  \<open>operator=(value_t&& rhs)\<close>: nothing for \<open>this == &rhs\<close>; else \<open>cleanup\<close>, then the
  tag and the switch of the move constructor.
\<close>

definition assign_move :: "addr \<Rightarrow> addr \<Rightarrow> world \<Rightarrow> outcome" where
  "assign_move this rhs w =
     (if this \<noteq> rhs then
        (case cleanup this w of
           Done w1 \<Rightarrow>
             (case objs w1 rhs of
                None \<Rightarrow> Undefined
              | Some r \<Rightarrow>
                  if type r = number then
                    (case value r of
                       Num n \<Rightarrow> Done (w1\<lparr>objs := (objs w1)(this \<mapsto> \<lparr>type = type r, value = Num n\<rparr>)\<rparr>)
                     | _ \<Rightarrow> Undefined)
                  else if type r = string then
                    (case value r of
                       Str p \<Rightarrow>
                         Done (w1\<lparr>objs := (objs w1)(this \<mapsto> \<lparr>type = type r, value = Str p\<rparr>,
                                                      rhs \<mapsto> r\<lparr>value := Str nullptr\<rparr>)\<rparr>)
                     | _ \<Rightarrow> Undefined)
                  else if type r = pointer then
                    (case value r of
                       Ptr p f \<Rightarrow>
                         Done (w1\<lparr>objs := (objs w1)(this \<mapsto> \<lparr>type = type r, value = Ptr p f\<rparr>,
                                                      rhs \<mapsto> r\<lparr>value := Ptr nullptr nullptr\<rparr>)\<rparr>)
                     | _ \<Rightarrow> Undefined)
                  else Aborted)
         | other \<Rightarrow> other)
      else Done w)"

text \<open>
  \<open>operator=(const value_t& rhs)\<close>: nothing for \<open>this == &rhs\<close>; else
  \<open>*this = value_t(rhs)\<close>: the temporary is copy-constructed at the address \<open>tmp\<close>, moved
  into \<open>*this\<close> and destroyed at the end of the statement. An exception of the copy
  constructor leaves the statement before anything is assigned.
\<close>

definition assign_copy :: "addr \<Rightarrow> addr \<Rightarrow> addr \<Rightarrow> addr \<Rightarrow> world \<Rightarrow> outcome" where
  "assign_copy this rhs tmp a w =
     (if this \<noteq> rhs then
        (case value_t_copy tmp rhs a w of
           Done w1 \<Rightarrow>
             (case assign_move this tmp w1 of
                Done w2 \<Rightarrow> destroy tmp w2
              | other \<Rightarrow> other)
         | other \<Rightarrow> other)
      else Done w)"

subsection \<open>Well-formed values\<close>

text \<open>
  A value is consistent when its tag is an enumerator and names the active member of the
  union, and its text pointer is null (the state a move leaves behind) or a live string.
  It is engaged when moreover its text pointer is not null.
\<close>

definition consistent :: "world \<Rightarrow> value_t \<Rightarrow> bool" where
  "consistent w v =
     (case value v of
        Num n \<Rightarrow> type v = number
      | Str p \<Rightarrow> type v = string \<and> (p = nullptr \<or> strs w p \<noteq> None)
      | Ptr p f \<Rightarrow> type v = pointer)"

definition engaged :: "world \<Rightarrow> value_t \<Rightarrow> bool" where
  "engaged w v = (consistent w v \<and> value v \<noteq> Str nullptr)"

text \<open>The release action that discarding the content of a value performs, if any.\<close>

definition release_of :: "value_t \<Rightarrow> event list" where
  "release_of v =
     (case value v of
        Num n \<Rightarrow> []
      | Str p \<Rightarrow> (if p = nullptr then [] else [Delete p])
      | Ptr p f \<Rightarrow> (if f \<noteq> nullptr then [Call f p] else []))"

text \<open>The heap strings that remain once the content of a value has been discarded.\<close>

definition release_strs :: "value_t \<Rightarrow> (addr \<rightharpoonup> string) \<Rightarrow> (addr \<rightharpoonup> string)" where
  "release_strs v m =
     (case value v of
        Num n \<Rightarrow> m
      | Str p \<Rightarrow> (if p = nullptr then m else m(p := None))
      | Ptr p f \<Rightarrow> m)"

text \<open>A value owns a resource when discarding its content has something to release.\<close>

definition owns :: "value_t \<Rightarrow> bool" where
  "owns v = (release_of v \<noteq> [])"

text \<open>The payload a move leaves in its source.\<close>

definition moved_from :: "union_t \<Rightarrow> union_t" where
  "moved_from u =
     (case u of
        Num n \<Rightarrow> Num n
      | Str p \<Rightarrow> Str nullptr
      | Ptr p f \<Rightarrow> Ptr nullptr nullptr)"

text \<open>Two values share text storage when both point to the same string.\<close>

definition shares :: "value_t \<Rightarrow> value_t \<Rightarrow> bool" where
  "shares u v =
     (case value u of
        Str p \<Rightarrow> p \<noteq> nullptr \<and> value v = Str p
      | _ \<Rightarrow> False)"

text \<open>
  The invariant of the stores the class builds: every live value is consistent, and no
  two live values point to the same string.
\<close>

definition wf :: "world \<Rightarrow> bool" where
  "wf w =
     ((\<forall>x v. objs w x = Some v \<longrightarrow> consistent w v) \<and>
      (\<forall>x y u v. x \<noteq> y \<and> objs w x = Some u \<and> objs w y = Some v \<longrightarrow> \<not> shares u v))"

subsection \<open>Running several statements\<close>

text \<open>
  A statement runs in the store the previous one returned; an exception, a failed
  assertion or undefined behaviour ends the run.
\<close>

fun and_then :: "outcome \<Rightarrow> (world \<Rightarrow> outcome) \<Rightarrow> outcome" where
  "and_then (Done w) f = f w"
| "and_then (Throws e w) f = Throws e w"
| "and_then Aborted f = Aborted"
| "and_then Undefined f = Undefined"

text \<open>\<open>*this = value_t(num)\<close> with the temporary at the address \<open>tmp\<close>.\<close>

definition assign_number :: "addr \<Rightarrow> addr \<Rightarrow> double \<Rightarrow> world \<Rightarrow> outcome" where
  "assign_number this tmp num w =
     and_then (and_then (value_t_number tmp num w) (assign_move this tmp)) (destroy tmp)"

fun trace_of :: "outcome \<Rightarrow> event list option" where
  "trace_of (Done w) = Some (trace w)"
| "trace_of (Throws e w) = Some (trace w)"
| "trace_of Aborted = None"
| "trace_of Undefined = None"

definition empty_world :: world where
  "empty_world = \<lparr>objs = Map.empty, strs = Map.empty, trace = []\<rparr>"

subsection \<open>Example stores\<close>

text \<open>
  The stores of the test program's first statements, with the objects at the addresses
  1, 2, ... and the heap strings from address 10: a pointer value with a free function,
  a string value, a string value next to a number value, and the string value after it
  has been moved to a new object at address 2.
\<close>

definition ptr_world :: world where
  "ptr_world =
     \<lparr>objs = [1 \<mapsto> \<lparr>type = pointer, value = Ptr 7 9\<rparr>], strs = Map.empty, trace = []\<rparr>"

definition text_world :: world where
  "text_world =
     \<lparr>objs = [1 \<mapsto> \<lparr>type = string, value = Str 10\<rparr>], strs = [10 \<mapsto> ''test''],
      trace = []\<rparr>"

definition text_number_world :: world where
  "text_number_world =
     \<lparr>objs = [1 \<mapsto> \<lparr>type = string, value = Str 10\<rparr>, 2 \<mapsto> \<lparr>type = number, value = Num 5\<rparr>],
      strs = [10 \<mapsto> ''test''], trace = []\<rparr>"

definition moved_text_world :: world where
  "moved_text_world =
     \<lparr>objs = [1 \<mapsto> \<lparr>type = string, value = Str nullptr\<rparr>,
              2 \<mapsto> \<lparr>type = string, value = Str 10\<rparr>],
      strs = [10 \<mapsto> ''test''], trace = []\<rparr>"

text \<open>
  The store after \<open>a = FromText("hello")\<close>, and the bit pattern of the double 5.0.
\<close>

definition hello_world :: world where
  "hello_world =
     \<lparr>objs = [1 \<mapsto> \<lparr>type = string, value = Str 10\<rparr>], strs = [10 \<mapsto> ''hello''],
      trace = []\<rparr>"

definition five :: double where
  "five = 0x4014000000000000"

text \<open>A store whose one object carries the tag 3, which is no enumerator.\<close>

definition bad_tag_world :: world where
  "bad_tag_world =
     \<lparr>objs = [1 \<mapsto> \<lparr>type = 3, value = Num 0\<rparr>], strs = Map.empty, trace = []\<rparr>"

section \<open>Properties\<close>

lemma tags_distinct [simp]:
  "number \<noteq> string" "string \<noteq> number" "number \<noteq> pointer"
  "pointer \<noteq> number" "string \<noteq> pointer" "pointer \<noteq> string"
  by (simp_all add: number_def string_def pointer_def)

subsection \<open>What the operations do to consistent values\<close>

lemma cleanup_consistent:
  assumes "objs w this = Some v" "consistent w v"
  shows "\<exists>w1. cleanup this w = Done w1
     \<and> objs w1 = (objs w)(this \<mapsto> \<lparr>type = number, value = Num 0\<rparr>)
     \<and> strs w1 = release_strs v (strs w)
     \<and> trace w1 = trace w @ release_of v"
  using assms
  by (auto simp: cleanup_def consistent_def release_of_def release_strs_def Let_def
           split: union_t.splits option.splits)

lemma cleanup_not_throws: "cleanup this w \<noteq> Throws e w'"
  by (auto simp: cleanup_def Let_def split: union_t.splits option.splits)

lemma destroy_consistent:
  assumes "objs w this = Some v" "consistent w v"
  shows "\<exists>w1. destroy this w = Done w1
     \<and> objs w1 = (objs w)(this := None)
     \<and> strs w1 = release_strs v (strs w)
     \<and> trace w1 = trace w @ release_of v"
proof -
  from cleanup_consistent [OF assms] obtain w0 where
    "cleanup this w = Done w0"
    "objs w0 = (objs w)(this \<mapsto> \<lparr>type = number, value = Num 0\<rparr>)"
    "strs w0 = release_strs v (strs w)" "trace w0 = trace w @ release_of v"
    by blast
  then show ?thesis by (simp add: destroy_def)
qed

lemma value_t_move_consistent:
  assumes "objs w src = Some s" "consistent w s" "this \<noteq> src"
  shows "\<exists>w1. value_t_move this src w = Done w1
     \<and> objs w1 this = Some s
     \<and> objs w1 src = Some (s\<lparr>value := moved_from (value s)\<rparr>)
     \<and> (\<forall>x. x \<noteq> this \<and> x \<noteq> src \<longrightarrow> objs w1 x = objs w x)
     \<and> strs w1 = strs w \<and> trace w1 = trace w"
  using assms
  by (auto simp: value_t_move_def consistent_def moved_from_def split: union_t.splits)

lemma assign_move_consistent:
  assumes "this \<noteq> rhs" "objs w this = Some d" "consistent w d"
      and "objs w rhs = Some s" "consistent w s"
  shows "\<exists>w0 w1. cleanup this w = Done w0 \<and> assign_move this rhs w = Done w1
     \<and> objs w0 this = Some \<lparr>type = number, value = Num 0\<rparr>
     \<and> objs w0 rhs = Some s
     \<and> trace w0 = trace w @ release_of d
     \<and> objs w1 this = Some s
     \<and> objs w1 rhs = Some (s\<lparr>value := moved_from (value s)\<rparr>)
     \<and> (\<forall>x. x \<noteq> this \<and> x \<noteq> rhs \<longrightarrow> objs w1 x = objs w x)
     \<and> strs w1 = release_strs d (strs w) \<and> trace w1 = trace w0"
proof -
  from cleanup_consistent [OF assms(2,3)] obtain w0 where
    c: "cleanup this w = Done w0"
       "objs w0 = (objs w)(this \<mapsto> \<lparr>type = number, value = Num 0\<rparr>)"
       "strs w0 = release_strs d (strs w)" "trace w0 = trace w @ release_of d"
    by blast
  from assms(1,4) c(2) have r: "objs w0 rhs = Some s" by simp
  show ?thesis
    using assms(1,5) c r
    by (auto simp: assign_move_def consistent_def moved_from_def split: union_t.splits)
qed

lemma moved_from_releases_nothing:
  "release_of (s\<lparr>value := moved_from (value s)\<rparr>) = []"
  "release_strs (s\<lparr>value := moved_from (value s)\<rparr>) m = m"
  by (auto simp: release_of_def release_strs_def moved_from_def split: union_t.splits)

lemma moved_from_consistent:
  "consistent w s \<Longrightarrow> consistent w' (s\<lparr>value := moved_from (value s)\<rparr>)"
  by (auto simp: consistent_def moved_from_def split: union_t.splits)

lemma AsString_same_strs: "strs w1 = strs w \<Longrightarrow> AsString w1 v = AsString w v"
  by (cases "value v") (simp_all add: AsString_def deref_def)

lemma value_t_copy_throws: "value_t_copy this src a w = Throws e w' \<Longrightarrow> w' = w"
  by (auto simp: value_t_copy_def split: option.splits if_splits union_t.splits)

lemma assign_move_not_throws: "assign_move this rhs w \<noteq> Throws e w'"
  using cleanup_not_throws [of this w]
  by (auto simp: assign_move_def split: outcome.splits option.splits if_splits union_t.splits)

lemma destroy_not_throws: "destroy this w \<noteq> Throws e w'"
  using cleanup_not_throws [of this w]
  by (auto simp: destroy_def split: outcome.splits)

lemma assign_copy_throws: "assign_copy this rhs tmp a w = Throws e w' \<Longrightarrow> w' = w"
  using assign_move_not_throws destroy_not_throws
  by (auto simp: assign_copy_def split: if_splits outcome.splits dest: value_t_copy_throws)

lemma value_t_copy_done:
  assumes "value_t_copy this src a w = Done w1" "objs w src = Some s"
  shows "\<exists>c. objs w1 = (objs w)(this \<mapsto> c) \<and> trace w1 = trace w \<and> type c = type s
     \<and> ((type s = number \<and> c = s \<and> strs w1 = strs w \<and> (\<exists>n. value s = Num n))
        \<or> (type s = string \<and> a \<noteq> nullptr \<and> value c = Str a
            \<and> (\<exists>p t. value s = Str p \<and> p \<noteq> nullptr \<and> strs w p = Some t
                    \<and> strs w1 = (strs w)(a \<mapsto> t))))"
  using assms
  by (auto simp: value_t_copy_def deref_def split: option.splits if_splits union_t.splits)

lemma consistent_more_strs:
  "consistent w v \<Longrightarrow> strs w1 = (strs w)(a \<mapsto> t) \<Longrightarrow> consistent w1 v"
  by (auto simp: consistent_def split: union_t.splits)

lemma consistent_same_strs:
  "consistent w v \<Longrightarrow> strs w1 = strs w \<Longrightarrow> consistent w1 v"
  by (auto simp: consistent_def split: union_t.splits)

lemma assign_copy_done:
  assumes "this \<noteq> rhs" "objs w tmp = None"
      and "objs w this = Some d" "consistent w d"
      and "objs w rhs = Some s" "\<not> shares d s"
      and "a = nullptr \<or> strs w a = None"
      and "assign_copy this rhs tmp a w = Done w'"
  shows "\<exists>c. objs w' this = Some c \<and> type c = type s
     \<and> AsNumber c = AsNumber s \<and> AsString w' c = AsString w s \<and> AsPointer c = AsPointer s
     \<and> objs w' rhs = Some s \<and> AsString w' s = AsString w s
     \<and> objs w' tmp = None
     \<and> (\<forall>x. x \<noteq> this \<longrightarrow> objs w' x = objs w x)
     \<and> trace w' = trace w @ release_of d
     \<and> (type s = string \<longrightarrow> value c = Str a \<and> a \<noteq> nullptr \<and> strs w a = None)"
proof -
  from assms(2,3,5) have ne: "tmp \<noteq> this" "tmp \<noteq> rhs" by auto
  from assms(1,8) obtain w1 where
    c1: "value_t_copy tmp rhs a w = Done w1"
    by (auto simp: assign_copy_def split: outcome.splits)
  from value_t_copy_done [OF c1 assms(5)] obtain c where
    c: "objs w1 = (objs w)(tmp \<mapsto> c)" "trace w1 = trace w" "type c = type s"
       "(type s = number \<and> c = s \<and> strs w1 = strs w \<and> (\<exists>n. value s = Num n))
        \<or> (type s = string \<and> a \<noteq> nullptr \<and> value c = Str a
            \<and> (\<exists>p t. value s = Str p \<and> p \<noteq> nullptr \<and> strs w p = Some t
                    \<and> strs w1 = (strs w)(a \<mapsto> t)))"
    by blast
  have d1: "objs w1 this = Some d" "objs w1 tmp = Some c" "objs w1 rhs = Some s"
    using c(1) ne assms(3,5) by simp_all
  have cd: "consistent w1 d"
    using c(4) assms(4) by (auto intro: consistent_more_strs consistent_same_strs)
  have cc: "consistent w1 c"
    using c(3,4) by (auto simp: consistent_def)
  from assign_move_consistent [OF ne(1) [symmetric] d1(1) cd d1(2) cc] obtain w2 where
    m: "assign_move this tmp w1 = Done w2" "objs w2 this = Some c"
       "objs w2 tmp = Some (c\<lparr>value := moved_from (value c)\<rparr>)"
       "\<forall>x. x \<noteq> this \<and> x \<noteq> tmp \<longrightarrow> objs w2 x = objs w1 x"
       "strs w2 = release_strs d (strs w1)" "trace w2 = trace w1 @ release_of d"
    by auto
  from destroy_consistent [OF m(3) moved_from_consistent [OF cc]] obtain w3 where
    k: "destroy tmp w2 = Done w3" "objs w3 = (objs w2)(tmp := None)"
       "strs w3 = strs w2" "trace w3 = trace w2"
    by (auto simp: moved_from_releases_nothing)
  from assms(1) c1 m(1) k(1) assms(8) have w': "w' = w3"
    by (simp add: assign_copy_def)
  have o: "objs w' this = Some c" "objs w' rhs = Some s" "objs w' tmp = None"
          "\<forall>x. x \<noteq> this \<longrightarrow> objs w' x = objs w x"
    using w' k(2) m(2,4) ne assms(1,2) d1(3) c(1) by auto
  have t: "trace w' = trace w @ release_of d"
    using w' k(4) m(6) c(2) by simp
  have st: "strs w' = release_strs d (strs w1)"
    using w' k(3) m(5) by simp
  have s1: "AsString w' s = AsString w s"
    using st c(4) assms(4,6,7)
    by (auto simp: AsString_def deref_def release_strs_def shares_def consistent_def
             split: union_t.splits)
  have s2: "AsString w' c = AsString w s"
    using st c(3,4) assms(4,7)
    by (auto simp: AsString_def deref_def release_strs_def consistent_def split: union_t.splits)
  have n: "AsNumber c = AsNumber s" "AsPointer c = AsPointer s"
    using c(3,4) by (auto simp: AsNumber_def AsPointer_def)
  have f: "type s = string \<longrightarrow> value c = Str a \<and> a \<noteq> nullptr \<and> strs w a = None"
    using c(4) assms(7) by auto
  from o t s1 s2 n f c(3) show ?thesis by blast
qed

lemma value_t_copy_engaged:
  assumes "objs w src = Some s" "engaged w s"
  shows "type s = number \<or> (type s = string \<and> a \<noteq> nullptr)
           \<Longrightarrow> \<exists>w1. value_t_copy this src a w = Done w1"
    and "type s = string \<Longrightarrow> a = nullptr \<Longrightarrow> value_t_copy this src a w = Throws bad_alloc w"
    and "type s = pointer \<Longrightarrow>
           value_t_copy this src a w = Throws (runtime_error ''Do not know how to copy pointer'') w"
  using assms
  by (auto simp: value_t_copy_def engaged_def consistent_def deref_def split: union_t.splits)

lemma assign_copy_succeeds:
  assumes "this \<noteq> rhs" "objs w tmp = None"
      and "objs w this = Some d" "consistent w d"
      and "objs w rhs = Some s" "engaged w s"
      and "type s = number \<or> (type s = string \<and> a \<noteq> nullptr)"
  shows "\<exists>w'. assign_copy this rhs tmp a w = Done w'"
proof -
  from assms(2,3,5) have ne: "tmp \<noteq> this" "tmp \<noteq> rhs" by auto
  from value_t_copy_engaged(1) [OF assms(5,6,7)] obtain w1 where
    c1: "value_t_copy tmp rhs a w = Done w1" by blast
  from value_t_copy_done [OF c1 assms(5)] obtain c where
    c: "objs w1 = (objs w)(tmp \<mapsto> c)" "type c = type s"
       "(type s = number \<and> c = s \<and> strs w1 = strs w \<and> (\<exists>n. value s = Num n))
        \<or> (type s = string \<and> a \<noteq> nullptr \<and> value c = Str a
            \<and> (\<exists>p t. value s = Str p \<and> p \<noteq> nullptr \<and> strs w p = Some t
                    \<and> strs w1 = (strs w)(a \<mapsto> t)))"
    by blast
  have d1: "objs w1 this = Some d" "objs w1 tmp = Some c"
    using c(1) ne assms(3) by simp_all
  have cd: "consistent w1 d"
    using c(3) assms(4) by (auto intro: consistent_more_strs consistent_same_strs)
  have cc: "consistent w1 c"
    using c(2,3) by (auto simp: consistent_def)
  from assign_move_consistent [OF ne(1) [symmetric] d1(1) cd d1(2) cc] obtain w2 where
    m: "assign_move this tmp w1 = Done w2"
       "objs w2 tmp = Some (c\<lparr>value := moved_from (value c)\<rparr>)"
    by auto
  from destroy_consistent [OF m(2) moved_from_consistent [OF cc]] obtain w3 where
    "destroy tmp w2 = Done w3" by auto
  with assms(1) c1 m(1) show ?thesis by (simp add: assign_copy_def)
qed

lemma copy_outlives_destroy:
  assumes "this \<noteq> src"
      and "objs w1 this = Some c" "type c = string" "value c = Str a" "a \<noteq> nullptr"
      and "objs w1 src = Some s" "type s = string" "value s = Str p" "a \<noteq> p"
      and "strs w1 p = Some t" "strs w1 a = Some t'" "p \<noteq> nullptr"
  shows "\<exists>w2. destroy this w1 = Done w2 \<and> trace w2 = trace w1 @ [Delete a]
           \<and> objs w2 this = None \<and> objs w2 src = Some s \<and> AsString w2 s = Ret t"
proof -
  have cc: "consistent w1 c"
    using assms(3,4,11) by (simp add: consistent_def)
  from destroy_consistent [OF assms(2) cc] obtain w2 where
    d: "destroy this w1 = Done w2" "objs w2 = (objs w1)(this := None)"
       "strs w2 = release_strs c (strs w1)" "trace w2 = trace w1 @ release_of c"
    by blast
  have "AsString w2 s = Ret t"
    using d(3) assms(4,5,7,8,9,10,12)
    by (simp add: AsString_def deref_def release_strs_def)
  with d assms(1,4,5,6) show ?thesis
    by (simp add: release_of_def)
qed

lemma copy_outlives_assign:
  assumes "this \<noteq> src" "tmp \<noteq> this" "tmp \<noteq> src"
      and "objs w1 this = Some c" "type c = string" "value c = Str a" "a \<noteq> nullptr"
      and "objs w1 src = Some s" "type s = string" "value s = Str p" "a \<noteq> p"
      and "strs w1 p = Some t" "strs w1 a = Some t'" "p \<noteq> nullptr"
  shows "\<exists>w2 b. assign_number this tmp n w1 = Done w2 \<and> trace w2 = trace w1 @ [Delete a]
           \<and> objs w2 this = Some b \<and> Type b = number \<and> AsNumber b = Ret n
           \<and> objs w2 src = Some s \<and> AsString w2 s = Ret t"
proof -
  let ?b = "\<lparr>type = number, value = Num n\<rparr>"
  define w0 where "w0 = w1\<lparr>objs := (objs w1)(tmp \<mapsto> ?b)\<rparr>"
  have n0: "value_t_number tmp n w1 = Done w0"
    by (simp add: value_t_number_def w0_def)
  have o0: "objs w0 this = Some c" "objs w0 tmp = Some ?b" "objs w0 src = Some s"
           "strs w0 = strs w1" "trace w0 = trace w1"
    using assms(2,3,4,8) by (simp_all add: w0_def)
  have cc: "consistent w0 c"
    using assms(5,6,13) o0(4) by (simp add: consistent_def)
  have cb: "consistent w0 ?b"
    by (simp add: consistent_def)
  from assign_move_consistent [OF assms(2) [symmetric] o0(1) cc o0(2) cb] obtain w2 where
    m: "assign_move this tmp w0 = Done w2" "objs w2 this = Some ?b"
       "objs w2 tmp = Some (?b\<lparr>value := moved_from (value ?b)\<rparr>)"
       "\<forall>x. x \<noteq> this \<and> x \<noteq> tmp \<longrightarrow> objs w2 x = objs w0 x"
       "strs w2 = release_strs c (strs w0)" "trace w2 = trace w0 @ release_of c"
    by auto
  from destroy_consistent [OF m(3) moved_from_consistent [OF cb]] obtain w3 where
    k: "destroy tmp w2 = Done w3" "objs w3 = (objs w2)(tmp := None)"
       "strs w3 = strs w2" "trace w3 = trace w2"
    by (auto simp: release_of_def release_strs_def moved_from_def)
  have r: "assign_number this tmp n w1 = Done w3"
    using n0 m(1) k(1) by (simp add: assign_number_def)
  have s3: "AsString w3 s = Ret t"
    using k(3) m(5) o0(4) assms(6,7,9,10,11,12,14)
    by (simp add: AsString_def deref_def release_strs_def)
  have o3: "objs w3 this = Some ?b" "objs w3 src = Some s"
    using k(2) m(2,4) o0(3) assms(1,2,3) by auto
  have t3: "trace w3 = trace w1 @ [Delete a]"
    using k(4) m(6) o0(5) assms(6,7) by (simp add: release_of_def)
  from r s3 o3 t3 show ?thesis
    by (auto simp: Type_def AsNumber_def)
qed

lemma AsString_Ret:
  "type v = string \<Longrightarrow> value v = Str q \<Longrightarrow>
     (AsString w v = Ret t) = (q \<noteq> nullptr \<and> strs w q = Some t)"
  by (auto simp: AsString_def deref_def split: option.splits)

lemma wf_consistent: "wf w \<Longrightarrow> objs w x = Some v \<Longrightarrow> consistent w v"
  by (simp add: wf_def)

lemma wf_not_dangling:
  assumes "wf w" "objs w x = Some v" "a \<noteq> nullptr" "strs w a = None"
  shows "value v \<noteq> Str a"
proof
  assume "value v = Str a"
  with wf_consistent [OF assms(1,2)] assms(3,4) show False
    by (simp add: consistent_def)
qed

lemma wf_not_shares: "wf w \<Longrightarrow> x \<noteq> y \<Longrightarrow> objs w x = Some u \<Longrightarrow> objs w y = Some v \<Longrightarrow> \<not> shares u v"
  by (auto simp: wf_def)

subsection \<open>The operations keep the invariant\<close>

text \<open>
  The empty store is well-formed, and every constructor, \<open>cleanup\<close>, the destructor and
  both assignments return a well-formed store when they start in one, provided the
  allocator hands out storage that is not in use. So the consistency and no-sharing
  hypotheses of the claims below hold in every store the class itself has built.
\<close>

lemma wf_empty_world: "wf empty_world"
  by (simp add: wf_def empty_world_def)

lemma wfI:
  assumes "\<And>x v. objs w x = Some v \<Longrightarrow> consistent w v"
      and "\<And>x y u v. x \<noteq> y \<Longrightarrow> objs w x = Some u \<Longrightarrow> objs w y = Some v \<Longrightarrow> \<not> shares u v"
  shows "wf w"
  using assms unfolding wf_def by blast

lemma shares_sym: "shares u v \<Longrightarrow> shares v u"
  by (auto simp: shares_def split: union_t.splits)

lemma consistent_mono:
  assumes "consistent w v" "\<And>q. strs w q \<noteq> None \<Longrightarrow> strs w' q \<noteq> None"
  shows "consistent w' v"
  using assms by (auto simp: consistent_def split: union_t.splits)

lemma wf_put:
  assumes "wf w" "objs w' = (objs w)(this \<mapsto> c)"
      and "\<And>q. strs w q \<noteq> None \<Longrightarrow> strs w' q \<noteq> None"
      and "consistent w' c"
      and "\<And>y v. y \<noteq> this \<Longrightarrow> objs w y = Some v \<Longrightarrow> \<not> shares c v"
  shows "wf w'"
proof (rule wfI)
  fix x v assume xv: "objs w' x = Some v"
  show "consistent w' v"
  proof (cases "x = this")
    case True
    with xv assms(2,4) show ?thesis by simp
  next
    case False
    with xv assms(2) have "objs w x = Some v" by simp
    from consistent_mono [OF wf_consistent [OF assms(1) this] assms(3)] show ?thesis .
  qed
next
  fix x y u v assume xy: "x \<noteq> y" "objs w' x = Some u" "objs w' y = Some v"
  show "\<not> shares u v"
  proof (cases "x = this")
    case True
    with xy assms(2) have "u = c" "y \<noteq> this" "objs w y = Some v" by auto
    with assms(5) show ?thesis by simp
  next
    case x: False
    show ?thesis
    proof (cases "y = this")
      case True
      with xy x assms(2) have "v = c" "objs w x = Some u" by auto
      with assms(5) x shares_sym show ?thesis by blast
    next
      case False
      with x xy assms(2) have "objs w x = Some u" "objs w y = Some v" by auto
      from wf_not_shares [OF assms(1) xy(1) this] show ?thesis .
    qed
  qed
qed

lemma wf_remove:
  assumes "wf w" "objs w' = (objs w)(this := None)" "strs w' = strs w"
  shows "wf w'"
proof (rule wfI)
  fix x v assume "objs w' x = Some v"
  with assms(2) have "objs w x = Some v" by (simp split: if_splits)
  from consistent_same_strs [OF wf_consistent [OF assms(1) this] assms(3)]
  show "consistent w' v" .
next
  fix x y u v assume xy: "x \<noteq> y" "objs w' x = Some u" "objs w' y = Some v"
  with assms(2) have "objs w x = Some u" "objs w y = Some v" by (simp_all split: if_splits)
  from wf_not_shares [OF assms(1) xy(1) this] show "\<not> shares u v" .
qed

lemma wf_release:
  assumes "wf w" "objs w this = Some d"
      and "objs w' = (objs w)(this \<mapsto> \<lparr>type = number, value = Num 0\<rparr>)"
      and "strs w' = release_strs d (strs w)"
  shows "wf w'"
proof (rule wfI)
  fix x v assume xv: "objs w' x = Some v"
  show "consistent w' v"
  proof (cases "x = this")
    case True
    with xv assms(3) show ?thesis by (auto simp: consistent_def)
  next
    case False
    with xv assms(3) have v: "objs w x = Some v" by simp
    from wf_not_shares [OF assms(1) _ assms(2) v] False have "\<not> shares d v" by blast
    with wf_consistent [OF assms(1) v] assms(4) show ?thesis
      by (auto simp: consistent_def shares_def release_strs_def split: union_t.splits)
  qed
next
  fix x y u v assume xy: "x \<noteq> y" "objs w' x = Some u" "objs w' y = Some v"
  show "\<not> shares u v"
  proof (cases "x = this \<or> y = this")
    case True
    with xy assms(3) have "value u = Num 0 \<or> value v = Num 0" by auto
    then show ?thesis by (auto simp: shares_def split: union_t.splits)
  next
    case False
    with xy assms(3) have "objs w x = Some u" "objs w y = Some v" by auto
    from wf_not_shares [OF assms(1) xy(1) this] show ?thesis .
  qed
qed

lemma wf_move:
  assumes "wf w" "this \<noteq> src" "objs w src = Some s"
      and "objs w' this = Some s" "objs w' src = Some (s\<lparr>value := moved_from (value s)\<rparr>)"
      and "\<forall>x. x \<noteq> this \<and> x \<noteq> src \<longrightarrow> objs w' x = objs w x"
      and "strs w' = strs w"
  shows "wf w'"
proof (rule wfI)
  fix x v assume xv: "objs w' x = Some v"
  have cs: "consistent w s" by (rule wf_consistent [OF assms(1,3)])
  show "consistent w' v"
  proof (cases "x = this")
    case True
    with xv assms(4) have "v = s" by simp
    with consistent_same_strs [OF cs assms(7)] show ?thesis by simp
  next
    case x: False
    show ?thesis
    proof (cases "x = src")
      case True
      with xv assms(5) have "v = s\<lparr>value := moved_from (value s)\<rparr>" by simp
      with moved_from_consistent [OF cs] show ?thesis by simp
    next
      case False
      with x xv assms(6) have "objs w x = Some v" by simp
      from consistent_same_strs [OF wf_consistent [OF assms(1) this] assms(7)]
      show ?thesis .
    qed
  qed
next
  fix x y u v assume xy: "x \<noteq> y" "objs w' x = Some u" "objs w' y = Some v"
  have ms: "\<not> shares (s\<lparr>value := moved_from (value s)\<rparr>) z"
           "\<not> shares z (s\<lparr>value := moved_from (value s)\<rparr>)" for z
    by (auto simp: shares_def moved_from_def split: union_t.splits)
  have other: "\<not> shares s z" "\<not> shares z s" if "objs w k = Some z" "k \<noteq> src" for k z
    using wf_not_shares [OF assms(1) _ assms(3) that(1)] that(2) shares_sym by blast+
  consider "x = src \<or> y = src" | "x = this" "y \<noteq> src" | "y = this" "x \<noteq> src"
    | "x \<noteq> this" "x \<noteq> src" "y \<noteq> this" "y \<noteq> src"
    by blast
  then show "\<not> shares u v"
  proof cases
    case 1
    with xy assms(5) ms show ?thesis by auto
  next
    case 2
    with xy assms(4,6) have "u = s" "objs w y = Some v" by auto
    with other(1) [of y v] 2 show ?thesis by simp
  next
    case 3
    with xy assms(4,6) have "v = s" "objs w x = Some u" by auto
    with other(2) [of x u] 3 show ?thesis by simp
  next
    case 4
    with xy assms(6) have "objs w x = Some u" "objs w y = Some v" by auto
    from wf_not_shares [OF assms(1) xy(1) this] show ?thesis .
  qed
qed

lemma wf_value_t_number:
  assumes "wf w" "value_t_number this n w = Done w'"
  shows "wf w'"
proof (rule wf_put [OF assms(1)])
  from assms(2) show "objs w' = (objs w)(this \<mapsto> \<lparr>type = number, value = Num n\<rparr>)"
    by (auto simp: value_t_number_def)
  from assms(2) show "strs w q \<noteq> None \<Longrightarrow> strs w' q \<noteq> None" for q
    by (auto simp: value_t_number_def)
qed (simp_all add: consistent_def shares_def)

lemma wf_value_t_default:
  assumes "wf w" "value_t_default this w = Done w'"
  shows "wf w'"
  using assms wf_value_t_number [of w this 0 w']
  by (simp add: value_t_default_def value_t_number_def)

lemma wf_value_t_pointer:
  assumes "wf w" "value_t_pointer this p f w = Done w'"
  shows "wf w'"
proof (rule wf_put [OF assms(1)])
  from assms(2) show "objs w' = (objs w)(this \<mapsto> \<lparr>type = pointer, value = Ptr p f\<rparr>)"
    by (auto simp: value_t_pointer_def)
  from assms(2) show "strs w q \<noteq> None \<Longrightarrow> strs w' q \<noteq> None" for q
    by (auto simp: value_t_pointer_def)
qed (simp_all add: consistent_def shares_def)

lemma wf_new_string:
  assumes "wf w" "a \<noteq> nullptr" "strs w a = None"
      and "objs w' = (objs w)(this \<mapsto> \<lparr>type = string, value = Str a\<rparr>)"
      and "strs w' = (strs w)(a \<mapsto> t)"
  shows "wf w'"
proof (rule wf_put [OF assms(1,4)])
  from assms(5) show "strs w q \<noteq> None \<Longrightarrow> strs w' q \<noteq> None" for q by simp
  from assms(5) show "consistent w' \<lparr>type = string, value = Str a\<rparr>"
    by (simp add: consistent_def)
  fix y v assume "y \<noteq> this" "objs w y = Some v"
  from wf_not_dangling [OF assms(1) this(2) assms(2,3)]
  show "\<not> shares \<lparr>type = string, value = Str a\<rparr> v"
    by (simp add: shares_def)
qed

lemma wf_value_t_string:
  assumes "wf w" "strs w a = None" "value_t_string this a arg w = Done w'"
  shows "wf w'"
proof -
  from assms(3) have "a \<noteq> nullptr"
      "objs w' = (objs w)(this \<mapsto> \<lparr>type = string, value = Str a\<rparr>)"
      "strs w' = (strs w)(a \<mapsto> arg)"
    by (auto simp: value_t_string_def split: if_splits)
  from wf_new_string [OF assms(1) this(1) assms(2) this(2,3)] show ?thesis .
qed

lemma wf_value_t_copy:
  assumes "wf w" "a = nullptr \<or> strs w a = None" "value_t_copy this src a w = Done w'"
  shows "wf w'"
proof -
  from assms(3) obtain s where s: "objs w src = Some s"
    by (auto simp: value_t_copy_def split: option.splits)
  from value_t_copy_done [OF assms(3) s] obtain c where
    c: "objs w' = (objs w)(this \<mapsto> c)" "type c = type s"
       "(type s = number \<and> c = s \<and> strs w' = strs w \<and> (\<exists>n. value s = Num n))
        \<or> (type s = string \<and> a \<noteq> nullptr \<and> value c = Str a
            \<and> (\<exists>p t. value s = Str p \<and> p \<noteq> nullptr \<and> strs w p = Some t
                    \<and> strs w' = (strs w)(a \<mapsto> t)))"
    by blast
  from c(3) show ?thesis
  proof
    assume n: "type s = number \<and> c = s \<and> strs w' = strs w \<and> (\<exists>n. value s = Num n)"
    show ?thesis
    proof (rule wf_put [OF assms(1) c(1)])
      from n show "strs w q \<noteq> None \<Longrightarrow> strs w' q \<noteq> None" for q by simp
      from n show "consistent w' c" by (auto simp: consistent_def)
      from n show "\<not> shares c v" for v by (auto simp: shares_def)
    qed
  next
    assume t: "type s = string \<and> a \<noteq> nullptr \<and> value c = Str a
            \<and> (\<exists>p t. value s = Str p \<and> p \<noteq> nullptr \<and> strs w p = Some t
                    \<and> strs w' = (strs w)(a \<mapsto> t))"
    then obtain tx where tx: "strs w' = (strs w)(a \<mapsto> tx)" by blast
    from t c(2) have ceq: "c = \<lparr>type = string, value = Str a\<rparr>" by simp
    from t assms(2) have fr: "a \<noteq> nullptr" "strs w a = None" by simp_all
    from wf_new_string [OF assms(1) fr c(1) [unfolded ceq] tx] show ?thesis .
  qed
qed

lemma cleanup_done:
  assumes "wf w" "cleanup this w = Done w'"
  shows "\<exists>d. objs w this = Some d
     \<and> objs w' = (objs w)(this \<mapsto> \<lparr>type = number, value = Num 0\<rparr>)
     \<and> strs w' = release_strs d (strs w)"
proof -
  from assms(2) obtain d where d: "objs w this = Some d"
    by (auto simp: cleanup_def split: option.splits)
  from cleanup_consistent [OF d wf_consistent [OF assms(1) d]] assms(2) d
  show ?thesis by auto
qed

lemma wf_cleanup:
  assumes "wf w" "cleanup this w = Done w'"
  shows "wf w'"
  using cleanup_done [OF assms] wf_release [OF assms(1)] by blast

lemma wf_destroy:
  assumes "wf w" "destroy this w = Done w'"
  shows "wf w'"
proof -
  from assms(2) obtain w0 where
    w0: "cleanup this w = Done w0" "w' = w0\<lparr>objs := (objs w0)(this := None)\<rparr>"
    by (auto simp: destroy_def split: outcome.splits)
  from wf_cleanup [OF assms(1) w0(1)] have "wf w0" .
  from wf_remove [OF this, of w' this] w0(2) show ?thesis by simp
qed

lemma wf_value_t_move:
  assumes "wf w" "this \<noteq> src" "value_t_move this src w = Done w'"
  shows "wf w'"
proof -
  from assms(3) obtain s where s: "objs w src = Some s"
    by (auto simp: value_t_move_def split: option.splits)
  from value_t_move_consistent [OF s wf_consistent [OF assms(1) s] assms(2)] assms(3)
       wf_move [OF assms(1,2) s, of w']
  show ?thesis by auto
qed

lemma wf_assign_move:
  assumes "wf w" "assign_move this rhs w = Done w'"
  shows "wf w'"
proof (cases "this = rhs")
  case True
  with assms show ?thesis by (simp add: assign_move_def)
next
  case False
  from assms(2) False obtain w0 where w0: "cleanup this w = Done w0"
    by (auto simp: assign_move_def split: outcome.splits)
  from cleanup_done [OF assms(1) w0] obtain d where
    d: "objs w this = Some d"
       "objs w0 = (objs w)(this \<mapsto> \<lparr>type = number, value = Num 0\<rparr>)"
       "strs w0 = release_strs d (strs w)"
    by blast
  have wf0: "wf w0" by (rule wf_cleanup [OF assms(1) w0])
  from assms(2) False w0 obtain s where s0: "objs w0 rhs = Some s"
    by (auto simp: assign_move_def split: option.splits)
  with d(2) False have s: "objs w rhs = Some s" by (simp split: if_splits)
  from assign_move_consistent [OF False d(1) wf_consistent [OF assms(1) d(1)]
         s wf_consistent [OF assms(1) s]] assms(2) w0 d(2,3)
  have "objs w' this = Some s" "objs w' rhs = Some (s\<lparr>value := moved_from (value s)\<rparr>)"
       "\<forall>x. x \<noteq> this \<and> x \<noteq> rhs \<longrightarrow> objs w' x = objs w0 x" "strs w' = strs w0"
    by auto
  from wf_move [OF wf0 False s0 this] show ?thesis .
qed

lemma wf_assign_copy:
  assumes "wf w" "a = nullptr \<or> strs w a = None" "assign_copy this rhs tmp a w = Done w'"
  shows "wf w'"
proof (cases "this = rhs")
  case True
  with assms show ?thesis by (simp add: assign_copy_def)
next
  case False
  from assms(3) False obtain w1 w2 where
    r: "value_t_copy tmp rhs a w = Done w1" "assign_move this tmp w1 = Done w2"
       "destroy tmp w2 = Done w'"
    by (auto simp: assign_copy_def split: outcome.splits)
  from wf_destroy [OF wf_assign_move [OF wf_value_t_copy [OF assms(1,2) r(1)] r(2)] r(3)]
  show ?thesis .
qed

subsection \<open>The claims\<close>

text \<open>
  C10. Assigning a value to itself, by copy or by move, returns normally and leaves the
  whole store as it was: the value's tag and payload, the heap strings (nothing is freed,
  nothing is allocated) and the list of release actions. This holds for every tag, so
  copy-assigning a pointer value to itself does not throw.
\<close>

theorem self_assignment_identity:
  "assign_copy this this tmp a w = Done w \<and> assign_move this this w = Done w"
  by (simp add: assign_copy_def assign_move_def)

theorem self_assignment_identity_witness:
  "assign_copy 1 1 2 0 ptr_world = Done ptr_world \<and> assign_move 1 1 text_world = Done text_world"
  using self_assignment_identity [of 1 2 0 ptr_world] self_assignment_identity [of 1 2 0 text_world]
  by blast

text \<open>
  C8. Each specialisation of the generic accessor returns what the dedicated accessor
  returns, on every value and in every store: the same payload when the tag matches, and
  when it does not the same \<open>std::runtime_error\<close> (the type mismatch of that
  accessor).
\<close>

theorem generic_accessor_equivalent:
  "As_number v = AsNumber v \<and> As_string w v = AsString w v \<and> As_pointer v = AsPointer v
   \<and> (type v \<noteq> number \<longrightarrow> As_number v = Raise (runtime_error ''Value is not a number''))
   \<and> (type v \<noteq> string \<longrightarrow> As_string w v = Raise (runtime_error ''Value is not a string''))
   \<and> (type v \<noteq> pointer \<longrightarrow> As_pointer v = Raise (runtime_error ''Value is not a pointer''))"
  by (simp add: As_number_def As_string_def As_pointer_def AsNumber_def AsString_def AsPointer_def)

theorem generic_accessor_equivalent_witness:
  "type \<lparr>type = string, value = Str 10\<rparr> \<noteq> number
   \<and> type \<lparr>type = string, value = Str 10\<rparr> \<noteq> pointer
   \<and> As_number \<lparr>type = string, value = Str 10\<rparr> = Raise (runtime_error ''Value is not a number'')
   \<and> As_string text_world \<lparr>type = string, value = Str 10\<rparr> = Ret ''test''
   \<and> As_pointer \<lparr>type = string, value = Str 10\<rparr> = Raise (runtime_error ''Value is not a pointer'')"
proof -
  have t: "type \<lparr>type = string, value = Str 10\<rparr> \<noteq> number"
          "type \<lparr>type = string, value = Str 10\<rparr> \<noteq> pointer"
    by simp_all
  have s: "AsString text_world \<lparr>type = string, value = Str 10\<rparr> = Ret ''test''"
    by (simp add: AsString_def deref_def text_world_def nullptr_def)
  from generic_accessor_equivalent [of "\<lparr>type = string, value = Str 10\<rparr>" text_world] t s
  show ?thesis by metis
qed

text \<open>
  C6. The pointer constructor returns normally for every pointer \<open>p\<close> and free function
  \<open>r\<close>, the value it builds has the pointer tag, and \<open>AsPointer\<close> returns \<open>p\<close>. When the
  content is discarded, by the destructor, by \<open>cleanup\<close>, or by a move assignment of
  another consistent value into it (which runs \<open>cleanup\<close> first), the release actions
  grow by the one call \<open>r(p)\<close> if \<open>r\<close> is not null and by nothing if \<open>r\<close> is null;
  discarding the cleaned value again adds nothing.
\<close>

theorem pointer_value_release:
  "\<exists>w1 v. value_t_pointer this p r w = Done w1 \<and> objs w1 this = Some v
      \<and> Type v = pointer \<and> AsPointer v = Ret p
      \<and> (\<exists>w2. destroy this w1 = Done w2
              \<and> trace w2 = trace w @ (if r \<noteq> nullptr then [Call r p] else []))
      \<and> (\<exists>w2. cleanup this w1 = Done w2
              \<and> trace w2 = trace w @ (if r \<noteq> nullptr then [Call r p] else [])
              \<and> (\<exists>w3. cleanup this w2 = Done w3 \<and> trace w3 = trace w2)
              \<and> (\<exists>w3. destroy this w2 = Done w3 \<and> trace w3 = trace w2))
      \<and> (rhs \<noteq> this \<and> objs w rhs = Some s \<and> consistent w s \<longrightarrow>
            (\<exists>w2. assign_move this rhs w1 = Done w2
               \<and> trace w2 = trace w @ (if r \<noteq> nullptr then [Call r p] else [])
               \<and> objs w2 this = Some s))"
proof -
  let ?v = "\<lparr>type = pointer, value = Ptr p r\<rparr>"
  define w1 where "w1 = w\<lparr>objs := (objs w)(this \<mapsto> ?v)\<rparr>"
  have c: "value_t_pointer this p r w = Done w1" "objs w1 this = Some ?v"
          "strs w1 = strs w" "trace w1 = trace w"
    by (simp_all add: value_t_pointer_def w1_def)
  have cv: "consistent w1 ?v" by (simp add: consistent_def)
  have rel: "release_of ?v = (if r \<noteq> nullptr then [Call r p] else [])"
    by (simp add: release_of_def)
  have d: "\<exists>w2. destroy this w1 = Done w2
              \<and> trace w2 = trace w @ (if r \<noteq> nullptr then [Call r p] else [])"
    using destroy_consistent [OF c(2) cv] c(4) rel by auto
  have k: "\<exists>w2. cleanup this w1 = Done w2
              \<and> trace w2 = trace w @ (if r \<noteq> nullptr then [Call r p] else [])
              \<and> (\<exists>w3. cleanup this w2 = Done w3 \<and> trace w3 = trace w2)
              \<and> (\<exists>w3. destroy this w2 = Done w3 \<and> trace w3 = trace w2)"
    by (simp add: w1_def destroy_def cleanup_def Let_def)
  have m: "\<exists>w2. assign_move this rhs w1 = Done w2
               \<and> trace w2 = trace w @ (if r \<noteq> nullptr then [Call r p] else [])
               \<and> objs w2 this = Some s"
    if "rhs \<noteq> this \<and> objs w rhs = Some s \<and> consistent w s"
  proof -
    from that have ne: "this \<noteq> rhs" and s: "objs w1 rhs = Some s"
      by (simp_all add: w1_def)
    from that have "consistent w s" by simp
    from consistent_same_strs [OF this c(3)] have cs: "consistent w1 s" .
    from assign_move_consistent [OF ne c(2) cv s cs] c(4) rel show ?thesis by auto
  qed
  from c(1,2) d k m show ?thesis
    by (auto simp: Type_def AsPointer_def)
qed

theorem pointer_value_release_witness:
  "(1::nat) \<noteq> 2
   \<and> objs hello_world 1 = Some \<lparr>type = string, value = Str 10\<rparr>
   \<and> consistent hello_world \<lparr>type = string, value = Str 10\<rparr>
   \<and> (\<exists>w1 v. value_t_pointer 2 7 9 hello_world = Done w1 \<and> objs w1 2 = Some v
          \<and> AsPointer v = Ret 7
          \<and> (\<exists>w2. destroy 2 w1 = Done w2 \<and> trace w2 = [Call 9 7])
          \<and> (\<exists>w2. assign_move 2 1 w1 = Done w2 \<and> trace w2 = [Call 9 7]
                 \<and> objs w2 2 = Some \<lparr>type = string, value = Str 10\<rparr>))"
proof -
  have h: "(1::nat) \<noteq> 2"
      "objs hello_world 1 = Some \<lparr>type = string, value = Str 10\<rparr>"
      "consistent hello_world \<lparr>type = string, value = Str 10\<rparr>"
    by (simp_all add: hello_world_def consistent_def)
  have t: "trace hello_world = []" "(9::nat) \<noteq> nullptr"
    by (simp_all add: hello_world_def nullptr_def)
  from pointer_value_release [of 2 7 9 hello_world 1 "\<lparr>type = string, value = Str 10\<rparr>"] h t
  show ?thesis by auto
qed

text \<open>
  C5. Let the destination of a move assignment own a resource (a text string, or a
  pointer with a free function) and let the source be another object. Then \<open>cleanup\<close>
  of the destination runs first and performs exactly one release action, that of the
  destination's resource (the \<open>delete\<close> of its string, which was live and is gone
  afterwards, or the call of its free function on its pointer), leaving the destination
  as number 0.0 and the source untouched; the assignment then returns with no further
  release action and with the source's tag and payload in the destination.
\<close>

theorem move_assign_releases_prior:
  assumes "this \<noteq> rhs"
      and "objs w this = Some d" "consistent w d" "owns d"
      and "objs w rhs = Some s" "consistent w s"
  shows "\<exists>ev w0 w1. release_of d = [ev]
     \<and> (\<forall>p. value d = Str p \<longrightarrow> ev = Delete p \<and> strs w p \<noteq> None \<and> strs w0 p = None)
     \<and> (\<forall>p f. value d = Ptr p f \<longrightarrow> ev = Call f p)
     \<and> cleanup this w = Done w0
     \<and> trace w0 = trace w @ [ev]
     \<and> objs w0 this = Some \<lparr>type = number, value = Num 0\<rparr>
     \<and> objs w0 rhs = Some s
     \<and> assign_move this rhs w = Done w1
     \<and> trace w1 = trace w0
     \<and> objs w1 this = Some s"
proof -
  from assms(4) obtain ev where ev: "release_of d = [ev]"
    by (auto simp: owns_def release_of_def split: union_t.splits if_splits)
  from cleanup_consistent [OF assms(2,3)] obtain w0 where
    c: "cleanup this w = Done w0" "strs w0 = release_strs d (strs w)"
    by blast
  have e1: "\<forall>p. value d = Str p \<longrightarrow> ev = Delete p \<and> strs w p \<noteq> None \<and> strs w0 p = None"
    using ev c(2) assms(3)
    by (auto simp: release_of_def release_strs_def consistent_def split: if_splits)
  have e2: "\<forall>p f. value d = Ptr p f \<longrightarrow> ev = Call f p"
    using ev by (auto simp: release_of_def split: if_splits)
  from assign_move_consistent [OF assms(1,2,3,5,6)] ev c(1) e1 e2 show ?thesis
    by auto
qed

theorem move_assign_releases_prior_witness:
  "(2::nat) \<noteq> 1
   \<and> objs text_number_world 1 = Some \<lparr>type = string, value = Str 10\<rparr>
   \<and> consistent text_number_world \<lparr>type = string, value = Str 10\<rparr>
   \<and> owns \<lparr>type = string, value = Str 10\<rparr>
   \<and> objs text_number_world 2 = Some \<lparr>type = number, value = Num 5\<rparr>
   \<and> consistent text_number_world \<lparr>type = number, value = Num 5\<rparr>
   \<and> (\<exists>w1. assign_move 1 2 text_number_world = Done w1
          \<and> trace w1 = [Delete 10] \<and> objs w1 1 = Some \<lparr>type = number, value = Num 5\<rparr>)"
proof -
  have h: "(1::nat) \<noteq> 2"
      "objs text_number_world 1 = Some \<lparr>type = string, value = Str 10\<rparr>"
      "consistent text_number_world \<lparr>type = string, value = Str 10\<rparr>"
      "owns \<lparr>type = string, value = Str 10\<rparr>"
      "objs text_number_world 2 = Some \<lparr>type = number, value = Num 5\<rparr>"
      "consistent text_number_world \<lparr>type = number, value = Num 5\<rparr>"
    by (simp_all add: text_number_world_def consistent_def owns_def release_of_def nullptr_def)
  have r: "release_of \<lparr>type = string, value = Str 10\<rparr> = [Delete 10]"
    by (simp add: release_of_def nullptr_def)
  from move_assign_releases_prior [OF h] r h show ?thesis
    by (auto simp: text_number_world_def)
qed

text \<open>
  C2 (as amended). Copying a pointer value into another object fails: the copy
  constructor, and the copy assignment to an object other than the source, throw the
  \<open>std::runtime_error\<close> "Do not know how to copy pointer" and leave the whole store as
  it was, so the source keeps its pointer and free function, no object is created, no
  second holder of the pointer exists and nothing is released. Copy-assigning the pointer
  value to itself is the one copy that does not fail: it returns with the store unchanged.
\<close>

theorem pointer_copy_fails:
  assumes "objs w src = Some v" "type v = pointer"
  shows "value_t_copy this src a w = Throws (runtime_error ''Do not know how to copy pointer'') w
     \<and> (this \<noteq> src \<longrightarrow>
          assign_copy this src tmp a w = Throws (runtime_error ''Do not know how to copy pointer'') w)
     \<and> (this = src \<longrightarrow> assign_copy this src tmp a w = Done w)"
  using assms by (simp add: value_t_copy_def assign_copy_def)

theorem pointer_copy_fails_witness:
  "objs ptr_world 1 = Some \<lparr>type = pointer, value = Ptr 7 9\<rparr>
   \<and> type \<lparr>type = pointer, value = Ptr 7 9\<rparr> = pointer
   \<and> (2::nat) \<noteq> 1
   \<and> value_t_copy 2 1 10 ptr_world = Throws (runtime_error ''Do not know how to copy pointer'') ptr_world
   \<and> assign_copy 2 1 3 10 ptr_world = Throws (runtime_error ''Do not know how to copy pointer'') ptr_world"
proof -
  have h: "objs ptr_world 1 = Some \<lparr>type = pointer, value = Ptr 7 9\<rparr>"
          "type \<lparr>type = pointer, value = Ptr 7 9\<rparr> = pointer"
    by (simp_all add: ptr_world_def)
  from pointer_copy_fails [OF h, of 2 10 3] h show ?thesis by simp
qed

text \<open>
  The claim as it is stated fails for the copy assignment of a pointer value to itself:
  the store built by the pointer constructor at address 1 is returned unchanged and
  nothing is thrown.
\<close>

theorem pointer_self_copy_assign_counterexample:
  "value_t_pointer 1 7 9 empty_world = Done ptr_world
   \<and> objs ptr_world 1 = Some \<lparr>type = pointer, value = Ptr 7 9\<rparr>
   \<and> assign_copy 1 1 2 10 ptr_world = Done ptr_world"
  by (simp add: value_t_pointer_def empty_world_def ptr_world_def assign_copy_def)

text \<open>
  C9 (as amended). Let an object carry a tag that is none of the three enumerators.
  \<open>cleanup\<close>, the destructor, the move constructor from it and a move assignment to or
  from it fail their \<open>assert(0)\<close>. The copy constructor from it, and so a copy assignment
  from it to another object, instead throws the \<open>std::logic_error\<close> "Impossible type",
  with the store unchanged. The accessors have no branch for an unknown tag: each throws
  its own \<open>std::runtime_error\<close>.
\<close>

theorem impossible_tag_outcomes:
  assumes "objs w x = Some v" "type v \<noteq> number" "type v \<noteq> string" "type v \<noteq> pointer"
  shows "cleanup x w = Aborted \<and> destroy x w = Aborted
     \<and> value_t_move this x w = Aborted
     \<and> (y \<noteq> x \<longrightarrow> assign_move x y w = Aborted)
     \<and> (y \<noteq> x \<and> (\<exists>d. objs w y = Some d \<and> consistent w d) \<longrightarrow> assign_move y x w = Aborted)
     \<and> value_t_copy this x a w = Throws (logic_error ''Impossible type'') w
     \<and> (y \<noteq> x \<longrightarrow> assign_copy y x tmp a w = Throws (logic_error ''Impossible type'') w)
     \<and> AsNumber v = Raise (runtime_error ''Value is not a number'')
     \<and> AsString w v = Raise (runtime_error ''Value is not a string'')
     \<and> AsPointer v = Raise (runtime_error ''Value is not a pointer'')"
proof -
  have c: "cleanup x w = Aborted"
    using assms by (simp add: cleanup_def Let_def)
  have m: "assign_move y x w = Aborted" if "y \<noteq> x" "objs w y = Some d" "consistent w d" for d
  proof -
    from cleanup_consistent [OF that(2,3)] obtain w0 where
      "cleanup y w = Done w0" "objs w0 = (objs w)(y \<mapsto> \<lparr>type = number, value = Num 0\<rparr>)"
      by blast
    with that(1) assms show ?thesis by (simp add: assign_move_def)
  qed
  show ?thesis
    using assms c m
    by (auto simp: destroy_def value_t_move_def assign_move_def value_t_copy_def assign_copy_def
                   AsNumber_def AsString_def AsPointer_def)
qed

theorem impossible_tag_outcomes_witness:
  "objs bad_tag_world 1 = Some \<lparr>type = 3, value = Num 0\<rparr>
   \<and> type \<lparr>type = 3, value = Num 0\<rparr> \<noteq> number
   \<and> type \<lparr>type = 3, value = Num 0\<rparr> \<noteq> string
   \<and> type \<lparr>type = 3, value = Num 0\<rparr> \<noteq> pointer
   \<and> (2::nat) \<noteq> 1
   \<and> cleanup 1 bad_tag_world = Aborted
   \<and> value_t_move 2 1 bad_tag_world = Aborted
   \<and> assign_move 1 2 bad_tag_world = Aborted
   \<and> assign_copy 2 1 3 10 bad_tag_world = Throws (logic_error ''Impossible type'') bad_tag_world
   \<and> AsNumber \<lparr>type = 3, value = Num 0\<rparr> = Raise (runtime_error ''Value is not a number'')"
proof -
  have h: "objs bad_tag_world 1 = Some \<lparr>type = 3, value = Num 0\<rparr>"
      "type \<lparr>type = 3, value = Num 0\<rparr> \<noteq> number"
      "type \<lparr>type = 3, value = Num 0\<rparr> \<noteq> string"
      "type \<lparr>type = 3, value = Num 0\<rparr> \<noteq> pointer"
    by (simp_all add: bad_tag_world_def number_def string_def pointer_def)
  have n: "(2::nat) \<noteq> 1" by simp
  from impossible_tag_outcomes [OF h, of 2 2 10 3] h n show ?thesis by blast
qed

text \<open>
  The claim as it is stated fails for the copy constructor: copying the object whose tag
  is 3 throws \<open>std::logic_error\<close>, an exception the caller can catch.
\<close>

theorem impossible_tag_copy_counterexample:
  "objs bad_tag_world 1 = Some \<lparr>type = 3, value = Num 0\<rparr>
   \<and> (3::nat) \<noteq> number \<and> (3::nat) \<noteq> string \<and> (3::nat) \<noteq> pointer
   \<and> value_t_copy 2 1 10 bad_tag_world = Throws (logic_error ''Impossible type'') bad_tag_world"
  by (simp add: bad_tag_world_def number_def string_def pointer_def value_t_copy_def)

text \<open>
  C1 (as amended). The number constructor returns a value whose \<open>AsNumber\<close> is the number
  given and whose other two accessors throw their type mismatch. For every engaged value
  (the tag names the active member, the text pointer of a string value is a live string:
  every value but a string value that has been moved from) \<open>Type\<close> is one of the three
  enumerators, the accessor of that tag returns the stored payload, and the other two
  accessors throw their \<open>std::runtime_error\<close>.
\<close>

theorem accessors_by_tag:
  "(\<exists>w1 c. value_t_number this n w = Done w1 \<and> objs w1 this = Some c \<and> engaged w1 c
        \<and> Type c = number \<and> AsNumber c = Ret n
        \<and> AsString w1 c = Raise (runtime_error ''Value is not a string'')
        \<and> AsPointer c = Raise (runtime_error ''Value is not a pointer''))
   \<and> (engaged w v \<longrightarrow>
        (Type v = number \<or> Type v = string \<or> Type v = pointer)
      \<and> (Type v = number \<longrightarrow>
            (\<exists>m. value v = Num m \<and> AsNumber v = Ret m)
          \<and> AsString w v = Raise (runtime_error ''Value is not a string'')
          \<and> AsPointer v = Raise (runtime_error ''Value is not a pointer''))
      \<and> (Type v = string \<longrightarrow>
            (\<exists>p s. value v = Str p \<and> strs w p = Some s \<and> AsString w v = Ret s)
          \<and> AsNumber v = Raise (runtime_error ''Value is not a number'')
          \<and> AsPointer v = Raise (runtime_error ''Value is not a pointer''))
      \<and> (Type v = pointer \<longrightarrow>
            (\<exists>p f. value v = Ptr p f \<and> AsPointer v = Ret p)
          \<and> AsNumber v = Raise (runtime_error ''Value is not a number'')
          \<and> AsString w v = Raise (runtime_error ''Value is not a string'')))"
  by (auto simp: value_t_number_def engaged_def consistent_def Type_def AsNumber_def AsString_def
                 AsPointer_def deref_def split: union_t.splits)

theorem accessors_by_tag_witness:
  "engaged text_world \<lparr>type = string, value = Str 10\<rparr>
   \<and> Type \<lparr>type = string, value = Str 10\<rparr> = string
   \<and> AsString text_world \<lparr>type = string, value = Str 10\<rparr> = Ret ''test''
   \<and> AsNumber \<lparr>type = string, value = Str 10\<rparr> = Raise (runtime_error ''Value is not a number'')
   \<and> AsPointer \<lparr>type = string, value = Str 10\<rparr> = Raise (runtime_error ''Value is not a pointer'')"
proof -
  have h: "engaged text_world \<lparr>type = string, value = Str 10\<rparr>"
          "Type \<lparr>type = string, value = Str 10\<rparr> = string"
          "strs text_world 10 = Some ''test''"
    by (simp_all add: engaged_def consistent_def text_world_def Type_def nullptr_def)
  from accessors_by_tag [of 1 0 text_world "\<lparr>type = string, value = Str 10\<rparr>"] h
  show ?thesis by auto
qed

text \<open>
  The claim as it is stated fails for a string value that has been moved from: after
  \<open>value_t s("test"); value_t t(std::move(s));\<close> the object \<open>s\<close> at address 1 still
  has the string tag and its text pointer is null, so \<open>AsString\<close> dereferences a null
  pointer instead of returning a payload.
\<close>

theorem moved_from_text_counterexample:
  "value_t_string 1 10 ''test'' empty_world = Done text_world
   \<and> value_t_move 2 1 text_world = Done moved_text_world
   \<and> objs moved_text_world 1 = Some \<lparr>type = string, value = Str nullptr\<rparr>
   \<and> Type \<lparr>type = string, value = Str nullptr\<rparr> = string
   \<and> AsString moved_text_world \<lparr>type = string, value = Str nullptr\<rparr> = UB"
  by (simp add: value_t_string_def empty_world_def text_world_def value_t_move_def
                moved_text_world_def Type_def AsString_def deref_def nullptr_def fun_upd_twist)

text \<open>
  C4 (as amended). Let the source hold a consistent value and the destination be another
  object. The move constructor returns normally, allocates and releases nothing, leaves
  the source's tag and payload in the destination (so every accessor of the destination
  returns what it returned on the source), and leaves in the source a value with nothing
  to release: destroying the source afterwards adds no release action, frees no string
  and leaves the destination as it is. The move assignment does the same when the
  destination holds a consistent value that does not share the source's string.
\<close>

theorem move_transfers_and_disengages:
  assumes "this \<noteq> src" "objs w src = Some s" "consistent w s"
  shows "(\<exists>w1 s'. value_t_move this src w = Done w1
            \<and> objs w1 this = Some s \<and> objs w1 src = Some s'
            \<and> strs w1 = strs w \<and> trace w1 = trace w
            \<and> AsString w1 s = AsString w s
            \<and> release_of s' = []
            \<and> (\<exists>w2. destroy src w1 = Done w2 \<and> trace w2 = trace w1 \<and> strs w2 = strs w1
                    \<and> objs w2 this = Some s \<and> objs w2 src = None))
     \<and> ((\<exists>d. objs w this = Some d \<and> consistent w d \<and> \<not> shares d s) \<longrightarrow>
          (\<exists>w1 s'. assign_move this src w = Done w1
            \<and> objs w1 this = Some s \<and> objs w1 src = Some s'
            \<and> AsString w1 s = AsString w s
            \<and> release_of s' = []
            \<and> (\<exists>w2. destroy src w1 = Done w2 \<and> trace w2 = trace w1 \<and> strs w2 = strs w1
                    \<and> objs w2 this = Some s \<and> objs w2 src = None)))"
proof (intro conjI impI)
  let ?s' = "s\<lparr>value := moved_from (value s)\<rparr>"
  from value_t_move_consistent [OF assms(2,3,1)] obtain w1 where
    m: "value_t_move this src w = Done w1" "objs w1 this = Some s" "objs w1 src = Some ?s'"
       "strs w1 = strs w" "trace w1 = trace w"
    by blast
  from destroy_consistent [OF m(3) moved_from_consistent [OF assms(3)]] obtain w2 where
    d: "destroy src w1 = Done w2" "objs w2 = (objs w1)(src := None)"
       "strs w2 = strs w1" "trace w2 = trace w1"
    by (auto simp: moved_from_releases_nothing)
  have "AsString w1 s = AsString w s"
    using m(4) by (rule AsString_same_strs)
  with m d assms(1) show "\<exists>w1 s'. value_t_move this src w = Done w1
            \<and> objs w1 this = Some s \<and> objs w1 src = Some s'
            \<and> strs w1 = strs w \<and> trace w1 = trace w
            \<and> AsString w1 s = AsString w s
            \<and> release_of s' = []
            \<and> (\<exists>w2. destroy src w1 = Done w2 \<and> trace w2 = trace w1 \<and> strs w2 = strs w1
                    \<and> objs w2 this = Some s \<and> objs w2 src = None)"
    by (simp add: moved_from_releases_nothing)
next
  let ?s' = "s\<lparr>value := moved_from (value s)\<rparr>"
  assume "\<exists>d. objs w this = Some d \<and> consistent w d \<and> \<not> shares d s"
  then obtain d where dd: "objs w this = Some d" "consistent w d" "\<not> shares d s"
    by blast
  from assign_move_consistent [OF assms(1) dd(1,2) assms(2,3)] obtain w1 where
    m: "assign_move this src w = Done w1" "objs w1 this = Some s" "objs w1 src = Some ?s'"
       "strs w1 = release_strs d (strs w)"
    by blast
  from destroy_consistent [OF m(3) moved_from_consistent [OF assms(3)]] obtain w2 where
    d: "destroy src w1 = Done w2" "objs w2 = (objs w1)(src := None)"
       "strs w2 = strs w1" "trace w2 = trace w1"
    by (auto simp: moved_from_releases_nothing)
  have "AsString w1 s = AsString w s"
    using m(4) dd(3)
    by (auto simp: AsString_def deref_def release_strs_def shares_def split: union_t.splits)
  with m d assms(1) show "\<exists>w1 s'. assign_move this src w = Done w1
            \<and> objs w1 this = Some s \<and> objs w1 src = Some s'
            \<and> AsString w1 s = AsString w s
            \<and> release_of s' = []
            \<and> (\<exists>w2. destroy src w1 = Done w2 \<and> trace w2 = trace w1 \<and> strs w2 = strs w1
                    \<and> objs w2 this = Some s \<and> objs w2 src = None)"
    by (simp add: moved_from_releases_nothing)
qed

theorem move_transfers_and_disengages_witness:
  "(2::nat) \<noteq> 1
   \<and> objs text_number_world 1 = Some \<lparr>type = string, value = Str 10\<rparr>
   \<and> consistent text_number_world \<lparr>type = string, value = Str 10\<rparr>
   \<and> objs text_number_world 2 = Some \<lparr>type = number, value = Num 5\<rparr>
   \<and> consistent text_number_world \<lparr>type = number, value = Num 5\<rparr>
   \<and> \<not> shares \<lparr>type = number, value = Num 5\<rparr> \<lparr>type = string, value = Str 10\<rparr>
   \<and> (\<exists>w1. value_t_move 2 1 text_number_world = Done w1
          \<and> objs w1 2 = Some \<lparr>type = string, value = Str 10\<rparr>
          \<and> AsString w1 \<lparr>type = string, value = Str 10\<rparr> = Ret ''test''
          \<and> (\<exists>w2. destroy 1 w1 = Done w2 \<and> trace w2 = []))
   \<and> (\<exists>w1. assign_move 2 1 text_number_world = Done w1
          \<and> objs w1 2 = Some \<lparr>type = string, value = Str 10\<rparr>
          \<and> AsString w1 \<lparr>type = string, value = Str 10\<rparr> = Ret ''test''
          \<and> (\<exists>w2. destroy 1 w1 = Done w2 \<and> trace w2 = trace w1))"
proof -
  let ?s = "\<lparr>type = string, value = Str 10\<rparr>"
  let ?d = "\<lparr>type = number, value = Num 5\<rparr>"
  have h: "(2::nat) \<noteq> 1"
      "objs text_number_world 1 = Some ?s" "consistent text_number_world ?s"
    by (simp_all add: text_number_world_def consistent_def)
  have g: "objs text_number_world 2 = Some ?d" "consistent text_number_world ?d"
      "\<not> shares ?d ?s"
    by (simp_all add: text_number_world_def consistent_def shares_def)
  have a: "AsString text_number_world ?s = Ret ''test''" "trace text_number_world = []"
    by (simp_all add: AsString_def deref_def text_number_world_def nullptr_def)
  from move_transfers_and_disengages [OF h, THEN conjunct1] a
  have m: "\<exists>w1. value_t_move 2 1 text_number_world = Done w1
          \<and> objs w1 2 = Some ?s \<and> AsString w1 ?s = Ret ''test''
          \<and> (\<exists>w2. destroy 1 w1 = Done w2 \<and> trace w2 = [])"
    by auto
  from move_transfers_and_disengages [OF h, THEN conjunct2] g a
  have n: "\<exists>w1. assign_move 2 1 text_number_world = Done w1
          \<and> objs w1 2 = Some ?s \<and> AsString w1 ?s = Ret ''test''
          \<and> (\<exists>w2. destroy 1 w1 = Done w2 \<and> trace w2 = trace w1)"
    by auto
  from h g m n show ?thesis by blast
qed

text \<open>
  The claim as it is stated fails for the move assignment of a value to itself: the
  string value at address 1 is left as it is, and destroying it afterwards frees its
  string.
\<close>

theorem self_move_assign_counterexample:
  "objs text_world 1 = Some \<lparr>type = string, value = Str 10\<rparr>
   \<and> trace text_world = []
   \<and> assign_move 1 1 text_world = Done text_world
   \<and> trace_of (destroy 1 text_world) = Some [Delete 10]"
  by (simp add: text_world_def assign_move_def destroy_def cleanup_def Let_def nullptr_def)

text \<open>
  C3. A copy assignment that throws leaves the whole store as it was, whatever the
  operands: the left-hand value keeps its tag and payload. Let the left-hand value be
  consistent, the right-hand value live in another object and share no string with it,
  the temporary be at an unused address and the allocator return null or unused storage.
  Then a copy assignment that returns leaves a complete copy in the left-hand value (the
  right-hand tag and the right-hand accessor results), the right-hand value and its text
  intact, the temporary gone, and has released only the left-hand value's old resource.
  For an engaged right-hand value the outcome is decided by its tag: a pointer throws the
  \<open>std::runtime_error\<close> of the copy constructor, a string with a failed allocation throws
  \<open>std::bad_alloc\<close>, and otherwise the assignment returns.
\<close>

theorem copy_assign_all_or_nothing:
  "(assign_copy this rhs tmp a w = Throws e w' \<longrightarrow> w' = w)
   \<and> (this \<noteq> rhs \<and> objs w tmp = None
        \<and> objs w this = Some d \<and> consistent w d
        \<and> objs w rhs = Some s \<and> \<not> shares d s
        \<and> (a = nullptr \<or> strs w a = None) \<longrightarrow>
        (assign_copy this rhs tmp a w = Done w1 \<longrightarrow>
           (\<exists>c. objs w1 this = Some c \<and> Type c = Type s
              \<and> AsNumber c = AsNumber s \<and> AsString w1 c = AsString w s
              \<and> AsPointer c = AsPointer s
              \<and> objs w1 rhs = Some s \<and> AsString w1 s = AsString w s
              \<and> objs w1 tmp = None
              \<and> trace w1 = trace w @ release_of d))
      \<and> (engaged w s \<longrightarrow>
           (type s = pointer \<longrightarrow>
              assign_copy this rhs tmp a w
                = Throws (runtime_error ''Do not know how to copy pointer'') w)
         \<and> (type s = string \<and> a = nullptr \<longrightarrow>
              assign_copy this rhs tmp a w = Throws bad_alloc w)
         \<and> (type s = number \<or> (type s = string \<and> a \<noteq> nullptr) \<longrightarrow>
              (\<exists>w2. assign_copy this rhs tmp a w = Done w2))))"
proof (intro conjI impI)
  assume "assign_copy this rhs tmp a w = Throws e w'"
  then show "w' = w" by (rule assign_copy_throws)
next
  assume h: "this \<noteq> rhs \<and> objs w tmp = None
        \<and> objs w this = Some d \<and> consistent w d
        \<and> objs w rhs = Some s \<and> \<not> shares d s
        \<and> (a = nullptr \<or> strs w a = None)"
  assume r: "assign_copy this rhs tmp a w = Done w1"
  from h assign_copy_done [OF _ _ _ _ _ _ _ r, of d s]
  show "\<exists>c. objs w1 this = Some c \<and> Type c = Type s
              \<and> AsNumber c = AsNumber s \<and> AsString w1 c = AsString w s
              \<and> AsPointer c = AsPointer s
              \<and> objs w1 rhs = Some s \<and> AsString w1 s = AsString w s
              \<and> objs w1 tmp = None
              \<and> trace w1 = trace w @ release_of d"
    by (auto simp: Type_def)
next
  assume h: "this \<noteq> rhs \<and> objs w tmp = None
        \<and> objs w this = Some d \<and> consistent w d
        \<and> objs w rhs = Some s \<and> \<not> shares d s
        \<and> (a = nullptr \<or> strs w a = None)"
  assume e: "engaged w s" and t: "type s = pointer"
  from h have r: "objs w rhs = Some s" "this \<noteq> rhs" by simp_all
  from value_t_copy_engaged(3) [OF r(1) e t] r(2)
  show "assign_copy this rhs tmp a w
          = Throws (runtime_error ''Do not know how to copy pointer'') w"
    by (simp add: assign_copy_def)
next
  assume h: "this \<noteq> rhs \<and> objs w tmp = None
        \<and> objs w this = Some d \<and> consistent w d
        \<and> objs w rhs = Some s \<and> \<not> shares d s
        \<and> (a = nullptr \<or> strs w a = None)"
  assume e: "engaged w s" and t: "type s = string \<and> a = nullptr"
  from h have r: "objs w rhs = Some s" "this \<noteq> rhs" by simp_all
  from value_t_copy_engaged(2) [OF r(1) e] t r(2)
  show "assign_copy this rhs tmp a w = Throws bad_alloc w"
    by (simp add: assign_copy_def)
next
  assume h: "this \<noteq> rhs \<and> objs w tmp = None
        \<and> objs w this = Some d \<and> consistent w d
        \<and> objs w rhs = Some s \<and> \<not> shares d s
        \<and> (a = nullptr \<or> strs w a = None)"
  assume e: "engaged w s" and t: "type s = number \<or> (type s = string \<and> a \<noteq> nullptr)"
  from h e t assign_copy_succeeds [of this rhs w tmp d s a]
  show "\<exists>w2. assign_copy this rhs tmp a w = Done w2" by blast
qed

theorem copy_assign_all_or_nothing_witness:
  "(2::nat) \<noteq> 1 \<and> objs text_number_world 3 = None
   \<and> objs text_number_world 2 = Some \<lparr>type = number, value = Num 5\<rparr>
   \<and> consistent text_number_world \<lparr>type = number, value = Num 5\<rparr>
   \<and> objs text_number_world 1 = Some \<lparr>type = string, value = Str 10\<rparr>
   \<and> engaged text_number_world \<lparr>type = string, value = Str 10\<rparr>
   \<and> \<not> shares \<lparr>type = number, value = Num 5\<rparr> \<lparr>type = string, value = Str 10\<rparr>
   \<and> strs text_number_world 11 = None
   \<and> assign_copy 2 1 3 nullptr text_number_world = Throws bad_alloc text_number_world
   \<and> (\<exists>w1 c. assign_copy 2 1 3 11 text_number_world = Done w1
          \<and> objs w1 2 = Some c \<and> Type c = string \<and> AsString w1 c = Ret ''test''
          \<and> objs w1 1 = Some \<lparr>type = string, value = Str 10\<rparr>
          \<and> AsString w1 \<lparr>type = string, value = Str 10\<rparr> = Ret ''test''
          \<and> trace w1 = [])"
proof -
  let ?d = "\<lparr>type = number, value = Num 5\<rparr>"
  let ?s = "\<lparr>type = string, value = Str 10\<rparr>"
  let ?w = text_number_world
  have h: "(2::nat) \<noteq> 1" "objs ?w 3 = None"
      "objs ?w 2 = Some ?d" "consistent ?w ?d"
      "objs ?w 1 = Some ?s" "engaged ?w ?s"
      "\<not> shares ?d ?s" "strs ?w 11 = None"
    by (simp_all add: text_number_world_def consistent_def engaged_def shares_def nullptr_def)
  have v: "type ?s = string" "Type ?s = string" "(11::nat) \<noteq> nullptr"
      "AsString ?w ?s = Ret ''test''" "release_of ?d = []" "trace ?w = []"
    by (simp_all add: Type_def nullptr_def AsString_def deref_def text_number_world_def
                      release_of_def)
  from copy_assign_all_or_nothing [of 2 1 3 nullptr ?w bad_alloc ?w ?d ?s ?w] h v
  have a: "assign_copy 2 1 3 nullptr ?w = Throws bad_alloc ?w"
    by simp
  from copy_assign_all_or_nothing [of 2 1 3 11 ?w bad_alloc ?w ?d ?s ?w] h v
  obtain w2 where w2: "assign_copy 2 1 3 11 ?w = Done w2"
    by auto
  from copy_assign_all_or_nothing [of 2 1 3 11 ?w bad_alloc ?w ?d ?s w2] h v w2
  have b: "\<exists>c. objs w2 2 = Some c \<and> Type c = string \<and> AsString w2 c = Ret ''test''
          \<and> objs w2 1 = Some ?s \<and> AsString w2 ?s = Ret ''test'' \<and> trace w2 = []"
    by auto
  from a b w2 h show ?thesis by blast
qed

text \<open>
  C7. In a well-formed store let the source be a string value with text \<open>t\<close>, and let
  the allocator return fresh storage \<open>a\<close>. The copy constructor into another object, and
  the copy assignment to another live object, return normally. The copy is a string value
  whose \<open>AsString\<close> is \<open>t\<close>; its string is the new storage \<open>a\<close>, which is not the
  source's string and which no other live value points to; the source is as it was.
  Destroying the copy, or overwriting it with a number, returns normally and leaves the
  source with its text \<open>t\<close>; after the overwrite the copy's \<open>AsNumber\<close> is that number.
\<close>

theorem text_copy_independent:
  assumes "wf w" "this \<noteq> src"
      and "objs w src = Some s" "type s = string" "value s = Str p" "p \<noteq> nullptr"
          "strs w p = Some t"
      and "a \<noteq> nullptr" "strs w a = None"
  shows "(\<exists>w1 c. value_t_copy this src a w = Done w1
            \<and> objs w1 this = Some c \<and> Type c = string \<and> value c = Str a \<and> a \<noteq> p
            \<and> AsString w1 c = Ret t
            \<and> objs w1 src = Some s \<and> AsString w1 s = Ret t
            \<and> (\<forall>x v. x \<noteq> this \<and> objs w1 x = Some v \<longrightarrow> value v \<noteq> Str a)
            \<and> (\<exists>w2. destroy this w1 = Done w2 \<and> objs w2 src = Some s \<and> AsString w2 s = Ret t)
            \<and> (\<forall>tmp' n. tmp' \<noteq> this \<and> tmp' \<noteq> src \<longrightarrow>
                  (\<exists>w2 b. assign_number this tmp' n w1 = Done w2
                     \<and> objs w2 this = Some b \<and> AsNumber b = Ret n
                     \<and> objs w2 src = Some s \<and> AsString w2 s = Ret t)))
     \<and> (objs w this \<noteq> None \<and> objs w tmp = None \<longrightarrow>
         (\<exists>w1 c. assign_copy this src tmp a w = Done w1
            \<and> objs w1 this = Some c \<and> Type c = string \<and> value c = Str a \<and> a \<noteq> p
            \<and> AsString w1 c = Ret t
            \<and> objs w1 src = Some s \<and> AsString w1 s = Ret t
            \<and> (\<forall>x v. x \<noteq> this \<and> objs w1 x = Some v \<longrightarrow> value v \<noteq> Str a)
            \<and> (\<exists>w2. destroy this w1 = Done w2 \<and> objs w2 src = Some s \<and> AsString w2 s = Ret t)
            \<and> (\<forall>tmp' n. tmp' \<noteq> this \<and> tmp' \<noteq> src \<longrightarrow>
                  (\<exists>w2 b. assign_number this tmp' n w1 = Done w2
                     \<and> objs w2 this = Some b \<and> AsNumber b = Ret n
                     \<and> objs w2 src = Some s \<and> AsString w2 s = Ret t))))"
proof (intro conjI impI)
  have ap: "a \<noteq> p" using assms(7,9) by auto
  let ?c = "\<lparr>type = string, value = Str a\<rparr>"
  define w1 where "w1 = w\<lparr>strs := (strs w)(a \<mapsto> t), objs := (objs w)(this \<mapsto> ?c)\<rparr>"
  have r: "value_t_copy this src a w = Done w1"
    using assms(3-8) by (simp add: value_t_copy_def deref_def w1_def)
  have o: "objs w1 this = Some ?c" "objs w1 src = Some s" "strs w1 p = Some t"
          "strs w1 a = Some t"
    using assms(2,3,7) ap by (simp_all add: w1_def)
  have sh: "\<forall>x v. x \<noteq> this \<and> objs w1 x = Some v \<longrightarrow> value v \<noteq> Str a"
    using wf_not_dangling [OF assms(1) _ assms(8,9)] by (auto simp: w1_def)
  have as: "AsString w1 ?c = Ret t" "AsString w1 s = Ret t"
    using o(3,4) assms(4,5,6,8) by (simp_all add: AsString_Ret)
  from copy_outlives_destroy [OF assms(2) o(1) _ _ assms(8) o(2) assms(4,5) ap o(3,4) assms(6)]
  have d: "\<exists>w2. destroy this w1 = Done w2 \<and> objs w2 src = Some s \<and> AsString w2 s = Ret t"
    by auto
  have n: "\<forall>tmp' n. tmp' \<noteq> this \<and> tmp' \<noteq> src \<longrightarrow>
                  (\<exists>w2 b. assign_number this tmp' n w1 = Done w2
                     \<and> objs w2 this = Some b \<and> AsNumber b = Ret n
                     \<and> objs w2 src = Some s \<and> AsString w2 s = Ret t)"
  proof (intro allI impI)
    fix tmp' n assume t: "tmp' \<noteq> this \<and> tmp' \<noteq> src"
    then have t1: "tmp' \<noteq> this" and t2: "tmp' \<noteq> src" by simp_all
    from copy_outlives_assign [OF assms(2) t1 t2 o(1) _ _ assms(8) o(2) assms(4,5) ap o(3,4)
        assms(6), of n]
    show "\<exists>w2 b. assign_number this tmp' n w1 = Done w2
                     \<and> objs w2 this = Some b \<and> AsNumber b = Ret n
                     \<and> objs w2 src = Some s \<and> AsString w2 s = Ret t"
      by auto
  qed
  from r o(1,2) ap as sh d n
  show "\<exists>w1 c. value_t_copy this src a w = Done w1
            \<and> objs w1 this = Some c \<and> Type c = string \<and> value c = Str a \<and> a \<noteq> p
            \<and> AsString w1 c = Ret t
            \<and> objs w1 src = Some s \<and> AsString w1 s = Ret t
            \<and> (\<forall>x v. x \<noteq> this \<and> objs w1 x = Some v \<longrightarrow> value v \<noteq> Str a)
            \<and> (\<exists>w2. destroy this w1 = Done w2 \<and> objs w2 src = Some s \<and> AsString w2 s = Ret t)
            \<and> (\<forall>tmp' n. tmp' \<noteq> this \<and> tmp' \<noteq> src \<longrightarrow>
                  (\<exists>w2 b. assign_number this tmp' n w1 = Done w2
                     \<and> objs w2 this = Some b \<and> AsNumber b = Ret n
                     \<and> objs w2 src = Some s \<and> AsString w2 s = Ret t))"
    by (intro exI [of _ w1] exI [of _ ?c]) (simp add: Type_def)
next
  assume h: "objs w this \<noteq> None \<and> objs w tmp = None"
  then obtain d where d: "objs w this = Some d" and tmp: "objs w tmp = None" by auto
  have ap: "a \<noteq> p" using assms(7,9) by auto
  have cd: "consistent w d" by (rule wf_consistent [OF assms(1) d])
  have es: "engaged w s"
    using wf_consistent [OF assms(1,3)] assms(5,6) by (simp add: engaged_def)
  have ns: "\<not> shares d s" by (rule wf_not_shares [OF assms(1,2) d assms(3)])
  from assign_copy_succeeds [OF assms(2) tmp d cd assms(3) es] assms(4,8) obtain w1 where
    r: "assign_copy this src tmp a w = Done w1" by blast
  from assign_copy_done [OF assms(2) tmp d cd assms(3) ns _ r] assms(9) obtain c where
    c: "objs w1 this = Some c" "type c = type s" "AsString w1 c = AsString w s"
       "objs w1 src = Some s" "AsString w1 s = AsString w s"
       "\<forall>x. x \<noteq> this \<longrightarrow> objs w1 x = objs w x"
       "type s = string \<longrightarrow> value c = Str a"
    by blast
  have ws: "AsString w s = Ret t"
    using assms(4-7) by (simp add: AsString_Ret)
  have c': "type c = string" "value c = Str a"
    using c(2,7) assms(4) by simp_all
  have o: "strs w1 p = Some t" "strs w1 a = Some t"
    using c(3,5) ws AsString_Ret [OF assms(4,5), of w1 t] AsString_Ret [OF c', of w1 t]
    by simp_all
  have sh: "\<forall>x v. x \<noteq> this \<and> objs w1 x = Some v \<longrightarrow> value v \<noteq> Str a"
    using wf_not_dangling [OF assms(1) _ assms(8,9)] c(6) by auto
  from copy_outlives_destroy [OF assms(2) c(1) c' assms(8) c(4) assms(4,5) ap o assms(6)]
  have dd: "\<exists>w2. destroy this w1 = Done w2 \<and> objs w2 src = Some s \<and> AsString w2 s = Ret t"
    by auto
  have n: "\<forall>tmp' n. tmp' \<noteq> this \<and> tmp' \<noteq> src \<longrightarrow>
                  (\<exists>w2 b. assign_number this tmp' n w1 = Done w2
                     \<and> objs w2 this = Some b \<and> AsNumber b = Ret n
                     \<and> objs w2 src = Some s \<and> AsString w2 s = Ret t)"
  proof (intro allI impI)
    fix tmp' n assume t: "tmp' \<noteq> this \<and> tmp' \<noteq> src"
    then have t1: "tmp' \<noteq> this" and t2: "tmp' \<noteq> src" by simp_all
    from copy_outlives_assign [OF assms(2) t1 t2 c(1) c' assms(8) c(4) assms(4,5) ap o
        assms(6), of n]
    show "\<exists>w2 b. assign_number this tmp' n w1 = Done w2
                     \<and> objs w2 this = Some b \<and> AsNumber b = Ret n
                     \<and> objs w2 src = Some s \<and> AsString w2 s = Ret t"
      by auto
  qed
  from r c(1,3,4,5) c' ws ap sh dd n
  show "\<exists>w1 c. assign_copy this src tmp a w = Done w1
            \<and> objs w1 this = Some c \<and> Type c = string \<and> value c = Str a \<and> a \<noteq> p
            \<and> AsString w1 c = Ret t
            \<and> objs w1 src = Some s \<and> AsString w1 s = Ret t
            \<and> (\<forall>x v. x \<noteq> this \<and> objs w1 x = Some v \<longrightarrow> value v \<noteq> Str a)
            \<and> (\<exists>w2. destroy this w1 = Done w2 \<and> objs w2 src = Some s \<and> AsString w2 s = Ret t)
            \<and> (\<forall>tmp' n. tmp' \<noteq> this \<and> tmp' \<noteq> src \<longrightarrow>
                  (\<exists>w2 b. assign_number this tmp' n w1 = Done w2
                     \<and> objs w2 this = Some b \<and> AsNumber b = Ret n
                     \<and> objs w2 src = Some s \<and> AsString w2 s = Ret t))"
    by (intro exI [of _ w1] exI [of _ c]) (simp add: Type_def)
qed

theorem text_copy_independent_witness:
  "wf hello_world \<and> (2::nat) \<noteq> 1
   \<and> objs hello_world 1 = Some \<lparr>type = string, value = Str 10\<rparr>
   \<and> strs hello_world 10 = Some ''hello'' \<and> strs hello_world 11 = None
   \<and> (\<exists>w1 c. value_t_copy 2 1 11 hello_world = Done w1
          \<and> objs w1 2 = Some c \<and> value c = Str 11 \<and> AsString w1 c = Ret ''hello''
          \<and> (\<exists>w2 b. assign_number 2 3 five w1 = Done w2
                 \<and> objs w2 2 = Some b \<and> AsNumber b = Ret five
                 \<and> objs w2 1 = Some \<lparr>type = string, value = Str 10\<rparr>
                 \<and> AsString w2 \<lparr>type = string, value = Str 10\<rparr> = Ret ''hello''))
   \<and> wf text_number_world \<and> objs text_number_world 2 \<noteq> None
   \<and> objs text_number_world 3 = None
   \<and> (\<exists>w1 c. assign_copy 2 1 3 11 text_number_world = Done w1
          \<and> objs w1 2 = Some c \<and> value c = Str 11 \<and> AsString w1 c = Ret ''test''
          \<and> (\<exists>w2. destroy 2 w1 = Done w2
                 \<and> AsString w2 \<lparr>type = string, value = Str 10\<rparr> = Ret ''test''))"
proof -
  let ?s = "\<lparr>type = string, value = Str 10\<rparr>"
  have w: "wf hello_world"
    by (auto simp: wf_def hello_world_def consistent_def split: if_splits)
  have h: "(2::nat) \<noteq> 1" "objs hello_world 1 = Some ?s" "type ?s = string"
      "value ?s = Str 10" "(10::nat) \<noteq> nullptr" "strs hello_world 10 = Some ''hello''"
      "(11::nat) \<noteq> nullptr" "strs hello_world 11 = None"
    by (simp_all add: hello_world_def nullptr_def)
  from text_copy_independent [OF w h, THEN conjunct1] obtain w1 c where
    c: "value_t_copy 2 1 11 hello_world = Done w1" "objs w1 2 = Some c" "value c = Str 11"
       "AsString w1 c = Ret ''hello''"
       "\<forall>tmp' n. tmp' \<noteq> 2 \<and> tmp' \<noteq> 1 \<longrightarrow>
          (\<exists>w2 b. assign_number 2 tmp' n w1 = Done w2
             \<and> objs w2 2 = Some b \<and> AsNumber b = Ret n
             \<and> objs w2 1 = Some ?s \<and> AsString w2 ?s = Ret ''hello'')"
    by blast
  from c(5) have "\<exists>w2 b. assign_number 2 3 five w1 = Done w2
             \<and> objs w2 2 = Some b \<and> AsNumber b = Ret five
             \<and> objs w2 1 = Some ?s \<and> AsString w2 ?s = Ret ''hello''"
    by simp
  with c(1-4) have first: "\<exists>w1 c. value_t_copy 2 1 11 hello_world = Done w1
          \<and> objs w1 2 = Some c \<and> value c = Str 11 \<and> AsString w1 c = Ret ''hello''
          \<and> (\<exists>w2 b. assign_number 2 3 five w1 = Done w2
                 \<and> objs w2 2 = Some b \<and> AsNumber b = Ret five
                 \<and> objs w2 1 = Some ?s \<and> AsString w2 ?s = Ret ''hello'')"
    by blast
  have w': "wf text_number_world"
    by (auto simp: wf_def text_number_world_def consistent_def shares_def split: if_splits)
  have h': "(2::nat) \<noteq> 1" "objs text_number_world 1 = Some ?s" "type ?s = string"
      "value ?s = Str 10" "(10::nat) \<noteq> nullptr" "strs text_number_world 10 = Some ''test''"
      "(11::nat) \<noteq> nullptr" "strs text_number_world 11 = None"
    by (simp_all add: text_number_world_def nullptr_def)
  have g: "objs text_number_world 2 \<noteq> None" "objs text_number_world 3 = None"
    by (simp_all add: text_number_world_def)
  from text_copy_independent [OF w' h', THEN conjunct2, of 3] g
  have second: "\<exists>w1 c. assign_copy 2 1 3 11 text_number_world = Done w1
          \<and> objs w1 2 = Some c \<and> value c = Str 11 \<and> AsString w1 c = Ret ''test''
          \<and> (\<exists>w2. destroy 2 w1 = Done w2 \<and> AsString w2 ?s = Ret ''test'')"
    by blast
  from first second w w' h g show ?thesis by blast
qed

end
